theory Spec2Isabelle
  imports Main "HOL-Library.Multiset"
begin

section \<open>The roles package (roles/roles_common_async.js): data model\<close>

text \<open>
  The source is the object \<^verbatim>\<open>Roles\<close> of \<^verbatim>\<open>roles_common_async.js\<close> (the file
  \<^verbatim>\<open>src/unnamed/part_002\<close>; the package file names it). Its methods work on
  two collections, \<^verbatim>\<open>Meteor.roles\<close> and \<^verbatim>\<open>Meteor.roleAssignment\<close>. A method named
  \<^verbatim>\<open>_foo\<close> in the source is \<open>foo\<close> here (an identifier cannot start with an underscore);
  no two methods of the source differ only in that underscore.

  A role document is \<^verbatim>\<open>{_id: name, children: [{_id: child}, ...]}\<close>; an assignment document
  is \<^verbatim>\<open>{_id, user: {_id}, role: {_id}, scope, inheritedRoles: [{_id}, ...]}\<close>. The one-field
  subdocuments are modelled by their \<^verbatim>\<open>_id\<close>. An assignment without the field
  \<^verbatim>\<open>inheritedRoles\<close> (between its insertion and the update that follows) has the empty
  list: no selector or modifier of the source tells the two apart. The scope \<^verbatim>\<open>null\<close> is
  \<open>None\<close>. Strings are lists of 8-bit characters.
\<close>

record role_doc =
  r_id :: string
  r_children :: "string list"

record assignment =
  a_id :: nat
  a_user :: string
  a_role :: string
  a_scope :: "string option"
  a_inheritedRoles :: "string list"

text \<open>
  The state: both collections in their natural order, and the source of the identifiers
  that \<^verbatim>\<open>insertAsync\<close> gives to new assignment documents.
\<close>

record store =
  roles :: "role_doc list"
  roleAssignment :: "assignment list"
  nextId :: nat

datatype error =
    InvalidRoleName string
  | InvalidScopeName string
  | RoleAlreadyExists string
  | RoleDoesNotExist string
  | WouldFormCycle string string
  | MissingUsersParam
  | MissingRolesParam
  | DuplicateKey string
  | TypeError

text \<open>A name as a caller can pass it: \<^verbatim>\<open>undefined\<close>, \<^verbatim>\<open>null\<close> or a string.\<close>

datatype jsname = JUndefined | JNull | JString string

text \<open>
  A value as \<^verbatim>\<open>userIsInRoleAsync\<close> can receive it for \<^verbatim>\<open>user\<close>: a primitive, or an object
  given by its fields. Numbers are integers here (\<^verbatim>\<open>NaN\<close> is left out).
\<close>

datatype jsval =
    Undefined
  | Null
  | Boolean bool
  | Number int
  | String string
  | Object "(string \<times> jsval) list"

fun truthy :: "jsval \<Rightarrow> bool" where
  "truthy Undefined = False"
| "truthy Null = False"
| "truthy (Boolean b) = b"
| "truthy (Number n) = (n \<noteq> 0)"
| "truthy (String s) = (s \<noteq> [])"
| "truthy (Object fs) = True"

fun get_field :: "string \<Rightarrow> (string \<times> jsval) list \<Rightarrow> jsval" where
  "get_field k [] = Undefined"
| "get_field k ((k', v) # fs) = (if k = k' then v else get_field k fs)"

section \<open>The document store\<close>

text \<open>
  Modelled from the spec: the driver behind \<^verbatim>\<open>findOneAsync\<close>, \<^verbatim>\<open>find\<close>, \<^verbatim>\<open>insertAsync\<close>,
  \<^verbatim>\<open>updateAsync\<close> and \<^verbatim>\<open>removeAsync\<close> (the mongo package) is not among the sources. The
  spec's section 6 gives its interface: a point lookup, a filtered read, an insert that fails
  on a duplicate key, an update that returns the count of documents its filter matched and
  touches at most one document unless \<^verbatim>\<open>multi\<close> is set, and a remove that returns the count
  removed. A selector is a predicate on documents, a modifier a function on them.
\<close>

definition findOne :: "('a \<Rightarrow> bool) \<Rightarrow> 'a list \<Rightarrow> 'a option" where
  "findOne sel coll = List.find sel coll"

definition find_docs :: "('a \<Rightarrow> bool) \<Rightarrow> 'a list \<Rightarrow> 'a list" where
  "find_docs sel coll = filter sel coll"

fun updateOne :: "('a \<Rightarrow> bool) \<Rightarrow> ('a \<Rightarrow> 'a) \<Rightarrow> 'a list \<Rightarrow> 'a list \<times> nat" where
  "updateOne sel f [] = ([], 0)"
| "updateOne sel f (d # ds) =
     (if sel d then (f d # ds, 1)
      else (d # fst (updateOne sel f ds), snd (updateOne sel f ds)))"

definition updateMulti :: "('a \<Rightarrow> bool) \<Rightarrow> ('a \<Rightarrow> 'a) \<Rightarrow> 'a list \<Rightarrow> 'a list \<times> nat" where
  "updateMulti sel f coll =
     (map (\<lambda>d. if sel d then f d else d) coll, length (filter sel coll))"

definition removeDocs :: "('a \<Rightarrow> bool) \<Rightarrow> 'a list \<Rightarrow> 'a list \<times> nat" where
  "removeDocs sel coll = (filter (\<lambda>d. \<not> sel d) coll, length (filter sel coll))"

text \<open>\<^verbatim>\<open>Meteor.roles.insertAsync(doc)\<close>: the \<^verbatim>\<open>_id\<close> is the key and is returned.\<close>

definition insertRole :: "role_doc \<Rightarrow> store \<Rightarrow> error + (store \<times> string)" where
  "insertRole doc st =
     (if \<exists>r \<in> set (roles st). r_id r = r_id doc then Inl (DuplicateKey (r_id doc))
      else Inr (st\<lparr>roles := roles st @ [doc]\<rparr>, r_id doc))"

text \<open>
  \<^verbatim>\<open>Meteor.roleAssignment.insertAsync({user, role, scope})\<close>: the document gets a fresh
  \<^verbatim>\<open>_id\<close>, which is returned.
\<close>

definition insertAssignment :: "string \<Rightarrow> string \<Rightarrow> string option \<Rightarrow> store \<Rightarrow> store \<times> nat" where
  "insertAssignment u r s st =
     (st\<lparr>roleAssignment := roleAssignment st @
            [\<lparr>a_id = nextId st, a_user = u, a_role = r, a_scope = s, a_inheritedRoles = []\<rparr>],
          nextId := Suc (nextId st)\<rparr>,
      nextId st)"

section \<open>Validators\<close>

text \<open>
  \<^verbatim>\<open>String.prototype.trim\<close> removes white space and line terminators at both ends; among
  8-bit characters these are TAB, LF, VT, FF, CR, SP and NBSP.
\<close>

definition is_js_space :: "char \<Rightarrow> bool" where
  "is_js_space c =
     (c = CHR 0x09 \<or> c = CHR 0x0A \<or> c = CHR 0x0B \<or> c = CHR 0x0C \<or> c = CHR 0x0D \<or>
      c = CHR 0x20 \<or> c = CHR 0xA0)"

definition js_trim :: "string \<Rightarrow> string" where
  "js_trim s = rev (dropWhile is_js_space (rev (dropWhile is_js_space s)))"

text \<open>
  \<^verbatim>\<open>_checkRoleName\<close>, on a string (the \<^verbatim>\<open>typeof\<close> test is then true): the empty string is
  falsy.
\<close>

definition checkRoleName :: "string \<Rightarrow> error + unit" where
  "checkRoleName roleName =
     (if roleName = [] \<or> js_trim roleName \<noteq> roleName then Inl (InvalidRoleName roleName)
      else Inr ())"

text \<open>\<^verbatim>\<open>_checkScopeName\<close>, on a normalized scope: \<^verbatim>\<open>null\<close> is valid.\<close>

definition checkScopeName :: "string option \<Rightarrow> error + unit" where
  "checkScopeName scopeName =
     (case scopeName of
        None \<Rightarrow> Inr ()
      | Some s \<Rightarrow>
          if s = [] \<or> js_trim s \<noteq> s then Inl (InvalidScopeName s) else Inr ())"

section \<open>createRoleAsync\<close>

text \<open>
  \<^verbatim>\<open>options\<close> is \<open>None\<close> when absent or without the key \<^verbatim>\<open>unlessExists\<close> (the default
  \<^verbatim>\<open>false\<close> of \<^verbatim>\<open>Object.assign\<close> then stands). The update of the existing role carries only
  \<^verbatim>\<open>$setOnInsert\<close> and no \<^verbatim>\<open>upsert\<close>: it inserts nothing and changes nothing. The result is
  the new store and the returned identifier, \<open>None\<close> for \<^verbatim>\<open>null\<close>.
\<close>

definition createRoleAsync :: "string \<Rightarrow> bool option \<Rightarrow> store \<Rightarrow> error + (store \<times> string option)" where
  "createRoleAsync roleName options st =
     (case checkRoleName roleName of
        Inl e \<Rightarrow> Inl e
      | Inr _ \<Rightarrow>
          let unlessExists = (case options of None \<Rightarrow> False | Some b \<Rightarrow> b) in
          (case findOne (\<lambda>r. r_id r = roleName) (roles st) of
             Some existingRole \<Rightarrow>
               Inr (st\<lparr>roles := fst (updateOne (\<lambda>r. r_id r = roleName) (\<lambda>r. r) (roles st))\<rparr>, None)
           | None \<Rightarrow>
               (case insertRole \<lparr>r_id = roleName, r_children = []\<rparr> st of
                  Inl e \<Rightarrow> Inl e
                | Inr (st', insertedId) \<Rightarrow>
                    if insertedId = [] then
                      (if unlessExists then Inr (st', None) else Inl (RoleAlreadyExists roleName))
                    else Inr (st', Some insertedId))))"

section \<open>Options\<close>

text \<open>
  The \<^verbatim>\<open>options\<close> argument of the public methods is absent, \<^verbatim>\<open>null\<close>, a scope name, or an
  object. \<^verbatim>\<open>_normalizeOptions\<close> turns each into an object whose scope is a string or
  \<^verbatim>\<open>null\<close>; the flags an object does not set are false (the defaults the methods give to
  \<^verbatim>\<open>Object.assign\<close>).
\<close>

record options_obj =
  oo_scope :: jsname
  oo_anyScope :: bool
  oo_ifExists :: bool

datatype options_arg = OptUndefined | OptNull | OptString string | OptObject options_obj

record options =
  o_scope :: "string option"
  o_anyScope :: bool
  o_ifExists :: bool

fun normalizeScopeName :: "jsname \<Rightarrow> string option" where
  "normalizeScopeName JUndefined = None"
| "normalizeScopeName JNull = None"
| "normalizeScopeName (JString s) = Some s"

fun normalizeOptions :: "options_arg \<Rightarrow> options" where
  "normalizeOptions OptUndefined =
     \<lparr>o_scope = normalizeScopeName JUndefined, o_anyScope = False, o_ifExists = False\<rparr>"
| "normalizeOptions OptNull =
     \<lparr>o_scope = normalizeScopeName JNull, o_anyScope = False, o_ifExists = False\<rparr>"
| "normalizeOptions (OptString s) =
     \<lparr>o_scope = normalizeScopeName (JString s), o_anyScope = False, o_ifExists = False\<rparr>"
| "normalizeOptions (OptObject ob) =
     \<lparr>o_scope = normalizeScopeName (oo_scope ob), o_anyScope = oo_anyScope ob,
      o_ifExists = oo_ifExists ob\<rparr>"

text \<open>
  A \<^verbatim>\<open>users\<close> or \<^verbatim>\<open>roles\<close> argument is one value or an array of them. A user is an id or
  an object with an \<^verbatim>\<open>_id\<close>.
\<close>

datatype user_ref = UserId string | UserObject string

datatype users_arg = UsersOne user_ref | UsersArray "user_ref list"

datatype names_arg = NamesOne string | NamesArray "string list"

text \<open>\<^verbatim>\<open>!users\<close> and \<^verbatim>\<open>!roles\<close>: only the empty string is falsy among these values.\<close>

fun users_falsy :: "users_arg \<Rightarrow> bool" where
  "users_falsy (UsersOne (UserId u)) = (u = [])"
| "users_falsy (UsersOne (UserObject u)) = False"
| "users_falsy (UsersArray us) = False"

fun names_falsy :: "names_arg \<Rightarrow> bool" where
  "names_falsy (NamesOne n) = (n = [])"
| "names_falsy (NamesArray ns) = False"

fun users_array :: "users_arg \<Rightarrow> user_ref list" where
  "users_array (UsersOne u) = [u]"
| "users_array (UsersArray us) = us"

fun names_array :: "names_arg \<Rightarrow> string list" where
  "names_array (NamesOne n) = [n]"
| "names_array (NamesArray ns) = ns"

text \<open>\<^verbatim>\<open>typeof user === 'object' ? user._id : user\<close>.\<close>

fun user_id :: "user_ref \<Rightarrow> string" where
  "user_id (UserId u) = u"
| "user_id (UserObject u) = u"

section \<open>The closure engine as the source has it\<close>

text \<open>
  \<^verbatim>\<open>_getInheritedRoleNamesAsync\<close> builds \<^verbatim>\<open>nestedRoles = new Set([role])\<close> and loops with
  \<^verbatim>\<open>for (const r in nestedRoles)\<close>. A \<^verbatim>\<open>for ... in\<close> loop runs over the enumerable string
  keys of an object, not over the elements of a collection, and a \<^verbatim>\<open>Set\<close> object has no
  enumerable property of its own or inherited. So the keys are none, whatever the set holds.
  (For a key \<^verbatim>\<open>r\<close>, a string, \<^verbatim>\<open>r.children\<close> would be \<^verbatim>\<open>undefined\<close> and \<^verbatim>\<open>.map\<close> a
  \<^verbatim>\<open>TypeError\<close>.) The sibling \<^verbatim>\<open>_getParentRoleNamesAsync\<close> loops with \<^verbatim>\<open>for ... of\<close>.
\<close>

definition enumerable_keys_of_Set :: "'a list \<Rightarrow> string list" where
  "enumerable_keys_of_Set elems = []"

fun for_in_body :: "string list \<Rightarrow> string list \<Rightarrow> error + string list" where
  "for_in_body [] inheritedRoles = Inr inheritedRoles"
| "for_in_body (r # keys) inheritedRoles = Inl TypeError"

definition getInheritedRoleNamesAsync :: "role_doc \<Rightarrow> store \<Rightarrow> error + string list" where
  "getInheritedRoleNamesAsync role st =
     (let inheritedRoles = []; nestedRoles = [role]
      in for_in_body (enumerable_keys_of_Set nestedRoles) inheritedRoles)"

section \<open>addRolesToParentAsync\<close>

text \<open>
  \<^verbatim>\<open>_addRoleToParentAsync\<close>. The first update is not \<^verbatim>\<open>multi\<close>: it pushes the role on the
  children of the first document named \<^verbatim>\<open>parentName\<close> that does not list it. When it
  matched, every assignment that inherits \<^verbatim>\<open>parentName\<close> gets the role and what the role
  inherits pushed on its \<^verbatim>\<open>inheritedRoles\<close>.
\<close>

definition addRoleToParentAsync :: "string \<Rightarrow> string \<Rightarrow> store \<Rightarrow> error + store" where
  "addRoleToParentAsync roleName parentName st =
     (case checkRoleName roleName of Inl e \<Rightarrow> Inl e | Inr _ \<Rightarrow>
     (case checkRoleName parentName of Inl e \<Rightarrow> Inl e | Inr _ \<Rightarrow>
     (case findOne (\<lambda>r. r_id r = roleName) (roles st) of
        None \<Rightarrow> Inl (RoleDoesNotExist roleName)
      | Some role \<Rightarrow>
          (case getInheritedRoleNamesAsync role st of Inl e \<Rightarrow> Inl e | Inr inherited \<Rightarrow>
           if parentName \<in> set inherited then Inl (WouldFormCycle roleName parentName)
           else
             let upd = updateOne
                   (\<lambda>p. r_id p = parentName \<and> r_id role \<notin> set (r_children p))
                   (\<lambda>p. p\<lparr>r_children := r_children p @ [r_id role]\<rparr>) (roles st);
                 st1 = st\<lparr>roles := fst upd\<rparr>;
                 count = snd upd
             in if count = 0 then Inr st1
                else
                  (case getInheritedRoleNamesAsync role st1 of Inl e \<Rightarrow> Inl e | Inr inherited2 \<Rightarrow>
                   Inr (st1\<lparr>roleAssignment := fst (updateMulti
                          (\<lambda>a. parentName \<in> set (a_inheritedRoles a))
                          (\<lambda>a. a\<lparr>a_inheritedRoles := a_inheritedRoles a @ (r_id role # inherited2)\<rparr>)
                          (roleAssignment st1))\<rparr>))))))"

fun addRolesToParent_loop :: "string list \<Rightarrow> string \<Rightarrow> store \<Rightarrow> error + store" where
  "addRolesToParent_loop [] parentName st = Inr st"
| "addRolesToParent_loop (roleName # rest) parentName st =
     (case addRoleToParentAsync roleName parentName st of
        Inl e \<Rightarrow> Inl e
      | Inr st' \<Rightarrow> addRolesToParent_loop rest parentName st')"

definition addRolesToParentAsync :: "names_arg \<Rightarrow> string \<Rightarrow> store \<Rightarrow> error + store" where
  "addRolesToParentAsync rolesNames parentName st =
     addRolesToParent_loop (names_array rolesNames) parentName st"

section \<open>addUsersToRolesAsync\<close>

text \<open>
  What \<^verbatim>\<open>_addUserToRoleAsync\<close> returns: nothing, an empty array, or the assignment document
  read back.
\<close>

datatype add_result = ResUndefined | ResEmptyArray | ResDoc assignment

fun res_of :: "assignment option \<Rightarrow> add_result" where
  "res_of None = ResUndefined"
| "res_of (Some d) = ResDoc d"

text \<open>
  \<^verbatim>\<open>_addUserToRoleAsync\<close>. The identifier a new document gets is a non-empty string in the
  source, so \<^verbatim>\<open>if (insertedId)\<close> holds exactly on the branch that inserted.
\<close>

definition addUserToRoleAsync :: "string \<Rightarrow> string \<Rightarrow> options \<Rightarrow> store \<Rightarrow> error + (store \<times> add_result)" where
  "addUserToRoleAsync userId roleName opts st =
     (case checkRoleName roleName of Inl e \<Rightarrow> Inl e | Inr _ \<Rightarrow>
     (case checkScopeName (o_scope opts) of Inl e \<Rightarrow> Inl e | Inr _ \<Rightarrow>
      if userId = [] then Inr (st, ResUndefined)
      else
        (case findOne (\<lambda>r. r_id r = roleName) (roles st) of
           None \<Rightarrow>
             if o_ifExists opts then Inr (st, ResEmptyArray)
             else Inl (RoleDoesNotExist roleName)
         | Some role \<Rightarrow>
             (case findOne (\<lambda>a. a_user a = userId \<and> a_role a = roleName \<and> a_scope a = o_scope opts)
                     (roleAssignment st) of
                Some existingAssignment \<Rightarrow>
                  let ras = fst (updateOne (\<lambda>a. a_id a = a_id existingAssignment)
                                  (\<lambda>a. a\<lparr>a_user := userId, a_role := roleName, a_scope := o_scope opts\<rparr>)
                                  (roleAssignment st))
                  in Inr (st\<lparr>roleAssignment := ras\<rparr>,
                          res_of (findOne (\<lambda>a. a_id a = a_id existingAssignment) ras))
              | None \<Rightarrow>
                  let ins = insertAssignment userId roleName (o_scope opts) st;
                      st1 = fst ins;
                      insertedId = snd ins
                  in (case getInheritedRoleNamesAsync role st1 of Inl e \<Rightarrow> Inl e | Inr inherited \<Rightarrow>
                      let ras = fst (updateOne (\<lambda>a. a_id a = insertedId)
                                      (\<lambda>a. a\<lparr>a_inheritedRoles := roleName # inherited\<rparr>)
                                      (roleAssignment st1))
                      in Inr (st1\<lparr>roleAssignment := ras\<rparr>,
                              res_of (findOne (\<lambda>a. a_id a = insertedId) ras)))))))"

fun addUsersToRoles_roles :: "string \<Rightarrow> string list \<Rightarrow> options \<Rightarrow> store \<Rightarrow> error + store" where
  "addUsersToRoles_roles uid [] opts st = Inr st"
| "addUsersToRoles_roles uid (role # rest) opts st =
     (case addUserToRoleAsync uid role opts st of
        Inl e \<Rightarrow> Inl e
      | Inr (st', _) \<Rightarrow> addUsersToRoles_roles uid rest opts st')"

fun addUsersToRoles_users :: "user_ref list \<Rightarrow> string list \<Rightarrow> options \<Rightarrow> store \<Rightarrow> error + store" where
  "addUsersToRoles_users [] rs opts st = Inr st"
| "addUsersToRoles_users (u # us) rs opts st =
     (case addUsersToRoles_roles (user_id u) rs opts st of
        Inl e \<Rightarrow> Inl e
      | Inr st' \<Rightarrow> addUsersToRoles_users us rs opts st')"

definition addUsersToRolesAsync :: "users_arg \<Rightarrow> names_arg \<Rightarrow> options_arg \<Rightarrow> store \<Rightarrow> error + store" where
  "addUsersToRolesAsync users rs options st =
     (if users_falsy users then Inl MissingUsersParam
      else if names_falsy rs then Inl MissingRolesParam
      else
        let opts = normalizeOptions options in
        (case checkScopeName (o_scope opts) of
           Inl e \<Rightarrow> Inl e
         | Inr _ \<Rightarrow> addUsersToRoles_users (users_array users) (names_array rs) opts st))"

section \<open>removeUsersFromRolesAsync\<close>

text \<open>
  \<^verbatim>\<open>_removeUserFromRoleAsync\<close>: the selector has the user and the role, and the scope unless
  \<^verbatim>\<open>anyScope\<close> is set.
\<close>

definition removeUserFromRoleAsync :: "string \<Rightarrow> string \<Rightarrow> options \<Rightarrow> store \<Rightarrow> error + store" where
  "removeUserFromRoleAsync userId roleName opts st =
     (case checkRoleName roleName of Inl e \<Rightarrow> Inl e | Inr _ \<Rightarrow>
     (case checkScopeName (o_scope opts) of Inl e \<Rightarrow> Inl e | Inr _ \<Rightarrow>
      if userId = [] then Inr st
      else Inr (st\<lparr>roleAssignment := fst (removeDocs
                  (\<lambda>a. a_user a = userId \<and> a_role a = roleName \<and>
                       (o_anyScope opts \<or> a_scope a = o_scope opts))
                  (roleAssignment st))\<rparr>)))"

fun user_falsy :: "user_ref \<Rightarrow> bool" where
  "user_falsy (UserId u) = (u = [])"
| "user_falsy (UserObject u) = False"

fun removeUsersFromRoles_roles :: "string \<Rightarrow> string list \<Rightarrow> options \<Rightarrow> store \<Rightarrow> error + store" where
  "removeUsersFromRoles_roles uid [] opts st = Inr st"
| "removeUsersFromRoles_roles uid (role # rest) opts st =
     (case removeUserFromRoleAsync uid role opts st of
        Inl e \<Rightarrow> Inl e
      | Inr st' \<Rightarrow> removeUsersFromRoles_roles uid rest opts st')"

text \<open>The loop over the users returns from the whole method at the first falsy user.\<close>

fun removeUsersFromRoles_users :: "user_ref list \<Rightarrow> string list \<Rightarrow> options \<Rightarrow> store \<Rightarrow> error + store" where
  "removeUsersFromRoles_users [] rs opts st = Inr st"
| "removeUsersFromRoles_users (u # us) rs opts st =
     (if user_falsy u then Inr st
      else
        (case removeUsersFromRoles_roles (user_id u) rs opts st of
           Inl e \<Rightarrow> Inl e
         | Inr st' \<Rightarrow> removeUsersFromRoles_users us rs opts st'))"

definition removeUsersFromRolesAsync :: "users_arg \<Rightarrow> names_arg \<Rightarrow> options_arg \<Rightarrow> store \<Rightarrow> error + store" where
  "removeUsersFromRolesAsync users rs options st =
     (if users_falsy users then Inl MissingUsersParam
      else if names_falsy rs then Inl MissingRolesParam
      else
        let opts = normalizeOptions options in
        (case checkScopeName (o_scope opts) of
           Inl e \<Rightarrow> Inl e
         | Inr _ \<Rightarrow> removeUsersFromRoles_users (users_array users) (names_array rs) opts st))"

section \<open>userIsInRoleAsync\<close>

text \<open>The helper \<^verbatim>\<open>asyncSome\<close>: it returns at the first element the predicate accepts.\<close>

fun asyncSome :: "'a list \<Rightarrow> ('a \<Rightarrow> bool) \<Rightarrow> bool" where
  "asyncSome [] predicate = False"
| "asyncSome (e # arr) predicate = (if predicate e then True else asyncSome arr predicate)"

text \<open>
  The same loop with a record of its run: beside the result, the elements on which it
  awaited the predicate, in order.
\<close>

fun asyncSome_traced :: "'a list \<Rightarrow> ('a \<Rightarrow> bool) \<Rightarrow> bool \<times> 'a list" where
  "asyncSome_traced [] predicate = (False, [])"
| "asyncSome_traced (e # arr) predicate =
     (if predicate e then (True, [e])
      else (fst (asyncSome_traced arr predicate), e # snd (asyncSome_traced arr predicate)))"

text \<open>The \<^verbatim>\<open>roles\<close> argument here may hold \<^verbatim>\<open>null\<close> and \<^verbatim>\<open>undefined\<close> entries.\<close>

datatype roles_arg = RolesOne jsname | RolesArray "jsname list"

fun roles_array :: "roles_arg \<Rightarrow> jsname list" where
  "roles_array (RolesOne r) = [r]"
| "roles_array (RolesArray rs) = rs"

text \<open>\<^verbatim>\<open>roles.filter((r) => r != null)\<close>: what is left are strings.\<close>

fun non_null :: "jsname list \<Rightarrow> string list" where
  "non_null [] = []"
| "non_null (JUndefined # rs) = non_null rs"
| "non_null (JNull # rs) = non_null rs"
| "non_null (JString s # rs) = s # non_null rs"

text \<open>\<^verbatim>\<open>user && typeof user === 'object' ? user._id : user\<close>.\<close>

fun resolve_id :: "jsval \<Rightarrow> jsval" where
  "resolve_id (Object fs) = get_field ''_id'' fs"
| "resolve_id v = v"

text \<open>
  The selector of the query: the user, the scope among the requested one and \<^verbatim>\<open>null\<close>
  unless \<^verbatim>\<open>anyScope\<close> is set, and the role among \<^verbatim>\<open>inheritedRoles\<close>.
\<close>

definition inRole_selector :: "string \<Rightarrow> options \<Rightarrow> string \<Rightarrow> assignment \<Rightarrow> bool" where
  "inRole_selector uid opts roleName a =
     (a_user a = uid \<and>
      (o_anyScope opts \<or> a_scope a = o_scope opts \<or> a_scope a = None) \<and>
      roleName \<in> set (a_inheritedRoles a))"

text \<open>\<^verbatim>\<open>find(selector, { limit: 1 }).countAsync() > 0\<close>, the predicate given to \<^verbatim>\<open>asyncSome\<close>.\<close>

definition inRole_query :: "string \<Rightarrow> options \<Rightarrow> store \<Rightarrow> string \<Rightarrow> bool" where
  "inRole_query uid opts st roleName =
     (length (take 1 (find_docs (inRole_selector uid opts roleName) (roleAssignment st))) > 0)"

definition userIsInRoleAsync :: "jsval \<Rightarrow> roles_arg \<Rightarrow> options_arg \<Rightarrow> store \<Rightarrow> error + bool" where
  "userIsInRoleAsync user rs options st =
     (let opts = normalizeOptions options;
          names = non_null (roles_array rs)
      in if names = [] then Inr False
         else
           (case checkScopeName (o_scope opts) of
              Inl e \<Rightarrow> Inl e
            | Inr _ \<Rightarrow>
                let uid = resolve_id user in
                if \<not> truthy uid then Inr False
                else
                  (case uid of
                     String u \<Rightarrow>
                       Inr (asyncSome names (inRole_query u opts st))
                   | _ \<Rightarrow> Inr False)))"

text \<open>
  The method with a record of its run: beside the result, the role names for which it
  issued the query on the assignments, in order. The body is that of
  \<open>userIsInRoleAsync\<close>, with \<open>asyncSome_traced\<close> for \<open>asyncSome\<close>; a return before the
  loop has queried nothing.
\<close>

definition userIsInRoleAsync_traced ::
    "jsval \<Rightarrow> roles_arg \<Rightarrow> options_arg \<Rightarrow> store \<Rightarrow> error + (bool \<times> string list)" where
  "userIsInRoleAsync_traced user rs options st =
     (let opts = normalizeOptions options;
          names = non_null (roles_array rs)
      in if names = [] then Inr (False, [])
         else
           (case checkScopeName (o_scope opts) of
              Inl e \<Rightarrow> Inl e
            | Inr _ \<Rightarrow>
                let uid = resolve_id user in
                if \<not> truthy uid then Inr (False, [])
                else
                  (case uid of
                     String u \<Rightarrow> Inr (asyncSome_traced names (inRole_query u opts st))
                   | _ \<Rightarrow> Inr (False, []))))"

section \<open>The closure engine as the spec has it\<close>

text \<open>
  Modelled from the spec: section 4.2, \<^verbatim>\<open>descendantsOf\<close> and \<^verbatim>\<open>inheritedClosureOf\<close>. The
  descendants of a role are found breadth first over the \<^verbatim>\<open>children\<close> edges with a visited
  set, the role itself left out; the closure is the role and its descendants. Each round
  that goes on adds a name that some role lists as a child, so one round more than there
  are such entries is enough.
\<close>

definition children_of :: "store \<Rightarrow> string \<Rightarrow> string list" where
  "children_of st name =
     (case findOne (\<lambda>r. r_id r = name) (roles st) of None \<Rightarrow> [] | Some r \<Rightarrow> r_children r)"

fun descendants_bfs :: "nat \<Rightarrow> store \<Rightarrow> string list \<Rightarrow> string list \<Rightarrow> string list" where
  "descendants_bfs 0 st frontier visited = visited"
| "descendants_bfs (Suc n) st frontier visited =
     (let new = filter (\<lambda>c. c \<notin> set visited) (remdups (concat (map (children_of st) frontier)))
      in if new = [] then visited else descendants_bfs n st new (visited @ new))"

definition descendantsOf :: "store \<Rightarrow> string \<Rightarrow> string list" where
  "descendantsOf st role =
     filter (\<lambda>c. c \<noteq> role)
       (descendants_bfs (Suc (length (concat (map r_children (roles st))))) st [role] [])"

definition inheritedClosureOf :: "store \<Rightarrow> string \<Rightarrow> string list" where
  "inheritedClosureOf st role = role # descendantsOf st role"

section \<open>setUserRolesAsync\<close>

text \<open>
  Modelled from the spec: \<^verbatim>\<open>setUserRolesAsync\<close> calls \<^verbatim>\<open>Roles._addUserToRole\<close>, the
  synchronous method of \<^verbatim>\<open>roles_common.js\<close>, which is not among the sources. The spec's
  section 4.4 gives \<^verbatim>\<open>addUserToRole\<close>: it fails when the role does not exist, unless
  \<^verbatim>\<open>ifExists\<close> is set (then it returns silently); it looks up an assignment of the exact
  (principal, role, scope); one found is overwritten in place; otherwise a new record is
  inserted and its \<^verbatim>\<open>inheritedRoles\<close> set to \<^verbatim>\<open>inheritedClosureOf(role)\<close>.
\<close>

definition addUserToRole :: "string \<Rightarrow> string \<Rightarrow> options \<Rightarrow> store \<Rightarrow> error + store" where
  "addUserToRole userId roleName opts st =
     (case findOne (\<lambda>r. r_id r = roleName) (roles st) of
        None \<Rightarrow> if o_ifExists opts then Inr st else Inl (RoleDoesNotExist roleName)
      | Some role \<Rightarrow>
          (case findOne (\<lambda>a. a_user a = userId \<and> a_role a = roleName \<and> a_scope a = o_scope opts)
                  (roleAssignment st) of
             Some existing \<Rightarrow>
               Inr (st\<lparr>roleAssignment := fst (updateOne (\<lambda>a. a_id a = a_id existing)
                          (\<lambda>a. a\<lparr>a_user := userId, a_role := roleName, a_scope := o_scope opts\<rparr>)
                          (roleAssignment st))\<rparr>)
           | None \<Rightarrow>
               let ins = insertAssignment userId roleName (o_scope opts) st;
                   st1 = fst ins
               in Inr (st1\<lparr>roleAssignment := fst (updateOne (\<lambda>a. a_id a = snd ins)
                          (\<lambda>a. a\<lparr>a_inheritedRoles := inheritedClosureOf st1 roleName\<rparr>)
                          (roleAssignment st1))\<rparr>)))"

fun setUserRoles_roles :: "string \<Rightarrow> string list \<Rightarrow> options \<Rightarrow> store \<Rightarrow> error + store" where
  "setUserRoles_roles uid [] opts st = Inr st"
| "setUserRoles_roles uid (role # rest) opts st =
     (case addUserToRole uid role opts st of
        Inl e \<Rightarrow> Inl e
      | Inr st' \<Rightarrow> setUserRoles_roles uid rest opts st')"

text \<open>
  The selector that clears the user's roles: the user, and the scope unless \<^verbatim>\<open>anyScope\<close>
  is set.
\<close>

definition clear_selector :: "string \<Rightarrow> options \<Rightarrow> assignment \<Rightarrow> bool" where
  "clear_selector uid opts a = (a_user a = uid \<and> (o_anyScope opts \<or> a_scope a = o_scope opts))"

definition setUserRoles_user :: "string \<Rightarrow> string list \<Rightarrow> options \<Rightarrow> store \<Rightarrow> error + store" where
  "setUserRoles_user uid rs opts st =
     setUserRoles_roles uid rs opts
       (st\<lparr>roleAssignment := fst (removeDocs (clear_selector uid opts) (roleAssignment st))\<rparr>)"

fun setUserRoles_users :: "user_ref list \<Rightarrow> string list \<Rightarrow> options \<Rightarrow> store \<Rightarrow> error + store" where
  "setUserRoles_users [] rs opts st = Inr st"
| "setUserRoles_users (u # us) rs opts st =
     (case setUserRoles_user (user_id u) rs opts st of
        Inl e \<Rightarrow> Inl e
      | Inr st' \<Rightarrow> setUserRoles_users us rs opts st')"

definition setUserRolesAsync :: "users_arg \<Rightarrow> names_arg \<Rightarrow> options_arg \<Rightarrow> store \<Rightarrow> error + store" where
  "setUserRolesAsync users rs options st =
     (if users_falsy users then Inl MissingUsersParam
      else if names_falsy rs then Inl MissingRolesParam
      else
        let opts = normalizeOptions options in
        (case checkScopeName (o_scope opts) of
           Inl e \<Rightarrow> Inl e
         | Inr _ \<Rightarrow> setUserRoles_users (users_array users) (names_array rs) opts st))"

section \<open>isParentOfAsync\<close>

text \<open>
  The loop of \<^verbatim>\<open>isParentOfAsync\<close>: \<^verbatim>\<open>rolesToCheck\<close> is a stack whose top is its last
  element (\<^verbatim>\<open>pop\<close>), and the children of the role popped are put on top (\<^verbatim>\<open>concat\<close>). A
  name without a role document is skipped. The loop keeps no record of the names it has
  seen, so it need not return: \<open>None\<close> is a run that goes on forever.
\<close>

partial_function (option) isParentOf_loop :: "store \<Rightarrow> string \<Rightarrow> string list \<Rightarrow> bool option" where
  "isParentOf_loop st childRoleName rolesToCheck =
     (if rolesToCheck = [] then Some False
      else if last rolesToCheck = childRoleName then Some True
      else
        (case findOne (\<lambda>r. r_id r = last rolesToCheck) (roles st) of
           None \<Rightarrow> isParentOf_loop st childRoleName (butlast rolesToCheck)
         | Some role \<Rightarrow>
             isParentOf_loop st childRoleName (butlast rolesToCheck @ r_children role)))"

declare isParentOf_loop.simps [code]

fun is_nullish :: "jsname \<Rightarrow> bool" where
  "is_nullish JUndefined = True"
| "is_nullish JNull = True"
| "is_nullish (JString s) = False"

definition isParentOfAsync :: "jsname \<Rightarrow> jsname \<Rightarrow> store \<Rightarrow> (error + bool) option" where
  "isParentOfAsync parentRoleName childRoleName st =
     (if parentRoleName = childRoleName then Some (Inr True)
      else if is_nullish parentRoleName \<or> is_nullish childRoleName then Some (Inr False)
      else
        (case (parentRoleName, childRoleName) of
           (JString p, JString c) \<Rightarrow>
             (case checkRoleName p of Inl e \<Rightarrow> Some (Inl e) | Inr _ \<Rightarrow>
             (case checkRoleName c of Inl e \<Rightarrow> Some (Inl e) | Inr _ \<Rightarrow>
                map_option Inr (isParentOf_loop st c [p])))
         | _ \<Rightarrow> Some (Inr False)))"

text \<open>
  The \<^verbatim>\<open>children\<close> edges the loop follows: from a name to the children of its role
  document.
\<close>

definition children_edges :: "store \<Rightarrow> (string \<times> string) set" where
  "children_edges st = {(p, c). c \<in> set (children_of st p)}"

section \<open>renameScopeAsync and renameRoleAsync\<close>

text \<open>
  \<^verbatim>\<open>do { count = await update() } while (count > 0)\<close>, the loop of both methods. \<open>None\<close> is
  a loop that never ends.
\<close>

partial_function (option) converge :: "(store \<Rightarrow> store \<times> nat) \<Rightarrow> store \<Rightarrow> store option" where
  "converge update st =
     (if snd (update st) > 0 then converge update (fst (update st))
      else Some (fst (update st)))"

declare converge.simps [code]

text \<open>
  The positional modifier \<^verbatim>\<open>$set: {'xs.$._id': newName}\<close> rewrites the first element of the
  array that the selector matched, in each document matched.
\<close>

fun replace_first :: "'a \<Rightarrow> 'a \<Rightarrow> 'a list \<Rightarrow> 'a list" where
  "replace_first x y [] = []"
| "replace_first x y (z # zs) = (if z = x then y # zs else z # replace_first x y zs)"

definition update_scope :: "string option \<Rightarrow> string option \<Rightarrow> store \<Rightarrow> store \<times> nat" where
  "update_scope oldName newName st =
     (let u = updateMulti (\<lambda>a. a_scope a = oldName) (\<lambda>a. a\<lparr>a_scope := newName\<rparr>)
                (roleAssignment st)
      in (st\<lparr>roleAssignment := fst u\<rparr>, snd u))"

definition update_role :: "string \<Rightarrow> string \<Rightarrow> store \<Rightarrow> store \<times> nat" where
  "update_role oldName newName st =
     (let u = updateMulti (\<lambda>a. a_role a = oldName) (\<lambda>a. a\<lparr>a_role := newName\<rparr>)
                (roleAssignment st)
      in (st\<lparr>roleAssignment := fst u\<rparr>, snd u))"

definition update_inherited :: "string \<Rightarrow> string \<Rightarrow> store \<Rightarrow> store \<times> nat" where
  "update_inherited oldName newName st =
     (let u = updateMulti (\<lambda>a. oldName \<in> set (a_inheritedRoles a))
                (\<lambda>a. a\<lparr>a_inheritedRoles := replace_first oldName newName (a_inheritedRoles a)\<rparr>)
                (roleAssignment st)
      in (st\<lparr>roleAssignment := fst u\<rparr>, snd u))"

definition update_children :: "string \<Rightarrow> string \<Rightarrow> store \<Rightarrow> store \<times> nat" where
  "update_children oldName newName st =
     (let u = updateMulti (\<lambda>r. oldName \<in> set (r_children r))
                (\<lambda>r. r\<lparr>r_children := replace_first oldName newName (r_children r)\<rparr>)
                (roles st)
      in (st\<lparr>roles := fst u\<rparr>, snd u))"

definition renameScopeAsync :: "string option \<Rightarrow> string option \<Rightarrow> store \<Rightarrow> (error + store) option" where
  "renameScopeAsync oldName newName st =
     (case checkScopeName oldName of Inl e \<Rightarrow> Some (Inl e) | Inr _ \<Rightarrow>
     (case checkScopeName newName of Inl e \<Rightarrow> Some (Inl e) | Inr _ \<Rightarrow>
      if oldName = newName then Some (Inr st)
      else map_option Inr (converge (update_scope oldName newName) st)))"

definition renameRoleAsync :: "string \<Rightarrow> string \<Rightarrow> store \<Rightarrow> (error + store) option" where
  "renameRoleAsync oldName newName st =
     (case checkRoleName oldName of Inl e \<Rightarrow> Some (Inl e) | Inr _ \<Rightarrow>
     (case checkRoleName newName of Inl e \<Rightarrow> Some (Inl e) | Inr _ \<Rightarrow>
      if oldName = newName then Some (Inr st)
      else
        (case findOne (\<lambda>r. r_id r = oldName) (roles st) of
           None \<Rightarrow> Some (Inl (RoleDoesNotExist oldName))
         | Some role \<Rightarrow>
             (case insertRole (role\<lparr>r_id := newName\<rparr>) st of
                Inl e \<Rightarrow> Some (Inl e)
              | Inr (st1, _) \<Rightarrow>
                  Option.bind (converge (update_role oldName newName) st1) (\<lambda>st2.
                  Option.bind (converge (update_inherited oldName newName) st2) (\<lambda>st3.
                  Option.bind (converge (update_children oldName newName) st3) (\<lambda>st4.
                  Some (Inr (st4\<lparr>roles :=
                    fst (removeDocs (\<lambda>r. r_id r = oldName) (roles st4))\<rparr>)))))))))"

section \<open>Example stores\<close>

text \<open>The store before anything is created.\<close>

definition store_empty :: store where
  "store_empty = \<lparr>roles = [], roleAssignment = [], nextId = 0\<rparr>"

text \<open>Two roles, \<^verbatim>\<open>editor\<close> a child of \<^verbatim>\<open>admin\<close>, and no assignment.\<close>

definition store_admin_editor :: store where
  "store_admin_editor =
     \<lparr>roles = [\<lparr>r_id = ''admin'', r_children = [''editor'']\<rparr>,
               \<lparr>r_id = ''editor'', r_children = []\<rparr>],
      roleAssignment = [], nextId = 0\<rparr>"

text \<open>The same two roles, each a child of the other.\<close>

definition store_cycle :: store where
  "store_cycle =
     \<lparr>roles = [\<lparr>r_id = ''admin'', r_children = [''editor'']\<rparr>,
               \<lparr>r_id = ''editor'', r_children = [''admin'']\<rparr>],
      roleAssignment = [], nextId = 0\<rparr>"

text \<open>The options \<^verbatim>\<open>{scope: S}\<close>.\<close>

definition scoped :: "jsname \<Rightarrow> options_arg" where
  "scoped S = OptObject \<lparr>oo_scope = S, oo_anyScope = False, oo_ifExists = False\<rparr>"

text \<open>One role, \<^verbatim>\<open>admin\<close>, and no assignment.\<close>

definition store_admin :: store where
  "store_admin = \<lparr>roles = [\<lparr>r_id = ''admin'', r_children = []\<rparr>], roleAssignment = [], nextId = 0\<rparr>"

text \<open>
  The role \<^verbatim>\<open>admin\<close> granted to \<^verbatim>\<open>u1\<close> twice, globally and in the scope \<^verbatim>\<open>g1\<close>; and the
  same store once the grant in \<^verbatim>\<open>g1\<close> has been removed.
\<close>

definition store_two_grants :: store where
  "store_two_grants =
     \<lparr>roles = [\<lparr>r_id = ''admin'', r_children = []\<rparr>],
      roleAssignment =
        [\<lparr>a_id = 0, a_user = ''u1'', a_role = ''admin'', a_scope = None,
          a_inheritedRoles = [''admin'']\<rparr>,
         \<lparr>a_id = 1, a_user = ''u1'', a_role = ''admin'', a_scope = Some ''g1'',
          a_inheritedRoles = [''admin'']\<rparr>],
      nextId = 2\<rparr>"

definition store_global_grant :: store where
  "store_global_grant =
     \<lparr>roles = [\<lparr>r_id = ''admin'', r_children = []\<rparr>],
      roleAssignment =
        [\<lparr>a_id = 0, a_user = ''u1'', a_role = ''admin'', a_scope = None,
          a_inheritedRoles = [''admin'']\<rparr>],
      nextId = 2\<rparr>"

text \<open>The role \<^verbatim>\<open>admin\<close> granted to \<^verbatim>\<open>u1\<close> in the scope \<^verbatim>\<open>g1\<close> only.\<close>

definition store_scoped_grant :: store where
  "store_scoped_grant =
     \<lparr>roles = [\<lparr>r_id = ''admin'', r_children = []\<rparr>],
      roleAssignment =
        [\<lparr>a_id = 0, a_user = ''u1'', a_role = ''admin'', a_scope = Some ''g1'',
          a_inheritedRoles = [''admin'']\<rparr>],
      nextId = 1\<rparr>"

text \<open>The options \<^verbatim>\<open>{scope: S, anyScope: true}\<close>.\<close>

definition any_scope :: "jsname \<Rightarrow> options_arg" where
  "any_scope S = OptObject \<lparr>oo_scope = S, oo_anyScope = True, oo_ifExists = False\<rparr>"

text \<open>\<open>store_admin\<close> after \<^verbatim>\<open>admin\<close> has been granted to \<^verbatim>\<open>u1\<close> once, globally.\<close>

definition store_one_grant :: store where
  "store_one_grant =
     \<lparr>roles = [\<lparr>r_id = ''admin'', r_children = []\<rparr>],
      roleAssignment =
        [\<lparr>a_id = 0, a_user = ''u1'', a_role = ''admin'', a_scope = None,
          a_inheritedRoles = [''admin'']\<rparr>],
      nextId = 1\<rparr>"

text \<open>
  \<open>store_two_grants\<close> after the roles of \<^verbatim>\<open>u1\<close> in the scope \<^verbatim>\<open>g1\<close> have been set to
  \<^verbatim>\<open>admin\<close>: the grant in \<^verbatim>\<open>g1\<close> is a new document.
\<close>

definition store_regranted :: store where
  "store_regranted =
     \<lparr>roles = [\<lparr>r_id = ''admin'', r_children = []\<rparr>],
      roleAssignment =
        [\<lparr>a_id = 0, a_user = ''u1'', a_role = ''admin'', a_scope = None,
          a_inheritedRoles = [''admin'']\<rparr>,
         \<lparr>a_id = 2, a_user = ''u1'', a_role = ''admin'', a_scope = Some ''g1'',
          a_inheritedRoles = [''admin'']\<rparr>],
      nextId = 3\<rparr>"

text \<open>
  \<open>store_two_grants\<close> after the roles of \<^verbatim>\<open>u1\<close> have been set to \<^verbatim>\<open>admin\<close> in the scope
  \<^verbatim>\<open>g2\<close> under \<^verbatim>\<open>anyScope\<close>: both old grants are gone.
\<close>

definition store_any_regranted :: store where
  "store_any_regranted =
     \<lparr>roles = [\<lparr>r_id = ''admin'', r_children = []\<rparr>],
      roleAssignment =
        [\<lparr>a_id = 2, a_user = ''u1'', a_role = ''admin'', a_scope = Some ''g2'',
          a_inheritedRoles = [''admin'']\<rparr>],
      nextId = 3\<rparr>"

text \<open>
  \<^verbatim>\<open>admin\<close> with the children \<^verbatim>\<open>editor\<close> and \<^verbatim>\<open>ghost\<close>, \<^verbatim>\<open>editor\<close> with the child
  \<^verbatim>\<open>viewer\<close>; \<^verbatim>\<open>ghost\<close> and \<^verbatim>\<open>viewer\<close> have no role document.
\<close>

definition store_dangling :: store where
  "store_dangling =
     \<lparr>roles = [\<lparr>r_id = ''admin'', r_children = [''editor'', ''ghost'']\<rparr>,
               \<lparr>r_id = ''editor'', r_children = [''viewer'']\<rparr>],
      roleAssignment = [], nextId = 0\<rparr>"

section \<open>What the store guarantees\<close>

text \<open>
  The \<^verbatim>\<open>_id\<close> of a document is unique in its collection, and the identifier an insert
  generates is fresh: in the model, the identifiers of the assignments are distinct and
  below \<open>nextId\<close>.
\<close>

definition wf_store :: "store \<Rightarrow> bool" where
  "wf_store st =
     (distinct (map a_id (roleAssignment st)) \<and>
      (\<forall>a \<in> set (roleAssignment st). a_id a < nextId st))"

text \<open>The grants of a store: who holds which role in which scope.\<close>

definition grants :: "store \<Rightarrow> (string \<times> string \<times> string option) set" where
  "grants st = (\<lambda>a. (a_user a, a_role a, a_scope a)) ` set (roleAssignment st)"

text \<open>How often a name occurs in the arrays of a collection.\<close>

definition occurrences :: "string \<Rightarrow> string list list \<Rightarrow> nat" where
  "occurrences x xss = sum_list (map (\<lambda>xs. count_list xs x) xss)"

section \<open>Facts about the store\<close>

lemma updateOne_id: "fst (updateOne sel (\<lambda>d. d) coll) = coll"
  by (induction coll) auto

lemma findOne_Some_iff: "(\<exists>d. findOne sel coll = Some d) \<longleftrightarrow> (\<exists>d \<in> set coll. sel d)"
  by (induction coll) (auto simp: findOne_def)

lemma findOne_None_iff: "findOne sel coll = None \<longleftrightarrow> (\<forall>d \<in> set coll. \<not> sel d)"
  by (auto simp: findOne_def find_None_iff)

lemma findOne_SomeD: "findOne sel coll = Some d \<Longrightarrow> d \<in> set coll \<and> sel d"
  by (induction coll) (auto simp: findOne_def split: if_splits)

lemma findOne_append1:
  "findOne sel (xs @ [y]) =
     (case findOne sel xs of Some d \<Rightarrow> Some d | None \<Rightarrow> if sel y then Some y else None)"
  by (induction xs) (auto simp: findOne_def)

lemma updateOne_no_match: "\<forall>d \<in> set coll. \<not> sel d \<Longrightarrow> updateOne sel f coll = (coll, 0)"
  by (induction coll) auto

lemma updateOne_append1:
  "\<forall>d \<in> set xs. \<not> sel d \<Longrightarrow>
   updateOne sel f (xs @ [y]) = (xs @ [if sel y then f y else y], if sel y then 1 else 0)"
  by (induction xs) auto

lemma updateOne_by_id_fixed:
  "distinct (map a_id coll) \<Longrightarrow> d \<in> set coll \<Longrightarrow> f d = d \<Longrightarrow>
   fst (updateOne (\<lambda>a. a_id a = a_id d) f coll) = coll"
  by (induction coll) (auto simp: rev_image_eqI)

lemma findOne_by_id:
  "distinct (map a_id coll) \<Longrightarrow> d \<in> set coll \<Longrightarrow>
   findOne (\<lambda>a. a_id a = a_id d) coll = Some d"
  by (induction coll) (auto simp: findOne_def rev_image_eqI)

section \<open>Facts about the examples\<close>

lemma checkRoleName_admin: "checkRoleName ''admin'' = Inr ()"
  by (simp add: checkRoleName_def js_trim_def is_js_space_def)

lemma checkRoleName_editor: "checkRoleName ''editor'' = Inr ()"
  by (simp add: checkRoleName_def js_trim_def is_js_space_def)

lemma checkScopeName_g1: "checkScopeName (Some ''g1'') = Inr ()"
  by (simp add: checkScopeName_def js_trim_def is_js_space_def)

lemma checkRoleName_viewer: "checkRoleName ''viewer'' = Inr ()"
  by (simp add: checkRoleName_def js_trim_def is_js_space_def)

text \<open>The closure engine of the source finds no descendant, whatever the role and the store.\<close>

lemma getInheritedRoleNamesAsync_empty: "getInheritedRoleNamesAsync role st = Inr []"
  by (simp add: getInheritedRoleNamesAsync_def enumerable_keys_of_Set_def)

text \<open>
  The store \<open>store_admin_editor\<close> is what the public methods build from the empty store:
  create both roles, then make \<^verbatim>\<open>editor\<close> a child of \<^verbatim>\<open>admin\<close>.
\<close>

lemma store_admin_editor_built:
  "createRoleAsync ''admin'' None store_empty = Inr (s1, Some ''admin'') \<Longrightarrow>
   createRoleAsync ''editor'' None s1 = Inr (s2, Some ''editor'') \<Longrightarrow>
   addRolesToParentAsync (NamesOne ''editor'') ''admin'' s2 = Inr store_admin_editor"
  by (auto simp: createRoleAsync_def checkRoleName_admin checkRoleName_editor findOne_def
      insertRole_def store_empty_def addRolesToParentAsync_def addRoleToParentAsync_def
      getInheritedRoleNamesAsync_empty store_admin_editor_def updateMulti_def)

section \<open>Closure correctness (C1)\<close>

text \<open>
  C1: the stored \<^verbatim>\<open>inheritedRoles\<close> of an assignment is the role and its descendants; an
  assignment newly created by \<^verbatim>\<open>addUsersToRoles\<close> has the assigned role and every role
  reachable from it over \<^verbatim>\<open>children\<close> edges. The code does not do this: with \<^verbatim>\<open>editor\<close> a
  child of \<^verbatim>\<open>admin\<close>, granting \<^verbatim>\<open>admin\<close> to \<^verbatim>\<open>u1\<close> stores \<^verbatim>\<open>inheritedRoles = [admin]\<close>,
  while the closure of \<^verbatim>\<open>admin\<close> is \<^verbatim>\<open>admin\<close> and \<^verbatim>\<open>editor\<close>.
\<close>

theorem addUsersToRoles_stores_role_only:
  "addUsersToRolesAsync (UsersOne (UserId ''u1'')) (NamesOne ''admin'') OptUndefined
     store_admin_editor =
   Inr (store_admin_editor
        \<lparr>roleAssignment :=
           [\<lparr>a_id = 0, a_user = ''u1'', a_role = ''admin'', a_scope = None,
             a_inheritedRoles = [''admin'']\<rparr>],
         nextId := 1\<rparr>) \<and>
   inheritedClosureOf store_admin_editor ''admin'' = [''admin'', ''editor'']"
proof
  show "addUsersToRolesAsync (UsersOne (UserId ''u1'')) (NamesOne ''admin'') OptUndefined
     store_admin_editor =
   Inr (store_admin_editor
        \<lparr>roleAssignment :=
           [\<lparr>a_id = 0, a_user = ''u1'', a_role = ''admin'', a_scope = None,
             a_inheritedRoles = [''admin'']\<rparr>],
         nextId := 1\<rparr>)"
    by (simp add: addUsersToRolesAsync_def store_admin_editor_def checkScopeName_def
        addUserToRoleAsync_def checkRoleName_admin findOne_def insertAssignment_def
        getInheritedRoleNamesAsync_empty)
  show "inheritedClosureOf store_admin_editor ''admin'' = [''admin'', ''editor'']"
    by (simp add: inheritedClosureOf_def descendantsOf_def store_admin_editor_def
        children_of_def findOne_def)
qed

section \<open>Acyclicity (C2)\<close>

text \<open>
  C2: a call of \<^verbatim>\<open>_addRoleToParentAsync(role, parent)\<close> with \<^verbatim>\<open>parent\<close> reachable from
  \<^verbatim>\<open>role\<close> fails with a cycle error and changes nothing, so the \<^verbatim>\<open>children\<close> relation
  stays acyclic. The code does not do this: with \<^verbatim>\<open>editor\<close> a child of \<^verbatim>\<open>admin\<close>, making
  \<^verbatim>\<open>admin\<close> a child of \<^verbatim>\<open>editor\<close> succeeds, and \<^verbatim>\<open>admin\<close> is then reachable from itself.
\<close>

theorem addRolesToParent_closes_cycle:
  "''editor'' \<in> set (inheritedClosureOf store_admin_editor ''admin'') \<and>
   addRolesToParentAsync (NamesOne ''admin'') ''editor'' store_admin_editor = Inr store_cycle \<and>
   (''admin'', ''admin'') \<in> (children_edges store_cycle)\<^sup>+"
proof (intro conjI)
  show "''editor'' \<in> set (inheritedClosureOf store_admin_editor ''admin'')"
    by (simp add: inheritedClosureOf_def descendantsOf_def store_admin_editor_def
        children_of_def findOne_def)
  show "addRolesToParentAsync (NamesOne ''admin'') ''editor'' store_admin_editor =
        Inr store_cycle"
    by (simp add: addRolesToParentAsync_def addRoleToParentAsync_def store_admin_editor_def
        store_cycle_def checkRoleName_admin checkRoleName_editor findOne_def
        getInheritedRoleNamesAsync_empty updateMulti_def)
  have "(''admin'', ''editor'') \<in> children_edges store_cycle"
    by (simp add: children_edges_def children_of_def store_cycle_def findOne_def)
  moreover have "(''editor'', ''admin'') \<in> children_edges store_cycle"
    by (simp add: children_edges_def children_of_def store_cycle_def findOne_def)
  ultimately show "(''admin'', ''admin'') \<in> (children_edges store_cycle)\<^sup>+"
    by (rule trancl_into_trancl2[OF _ r_into_trancl])
qed

text \<open>
  The cycle error is out of reach altogether: the test reads
  \<^verbatim>\<open>_getInheritedRoleNamesAsync\<close>, which returns the empty array.
\<close>

lemma addRoleToParentAsync_no_cycle_error:
  "addRoleToParentAsync roleName parentName st \<noteq> Inl (WouldFormCycle a b)"
proof -
  have "checkRoleName n \<noteq> Inl (WouldFormCycle a b)" for n
    by (simp add: checkRoleName_def)
  then show ?thesis
    by (auto simp: addRoleToParentAsync_def getInheritedRoleNamesAsync_empty Let_def
        split: sum.splits option.splits)
qed

section \<open>createRoleAsync on an existing role (C3)\<close>

text \<open>
  C3: \<^verbatim>\<open>createRole\<close> on a name that exists fails with an already-exists error unless
  \<^verbatim>\<open>unlessExists\<close> is set. The code does not do this: whatever the options, it returns
  \<^verbatim>\<open>null\<close> and leaves the store as it was; the branch that throws is reached only when
  the insert of a new role returns a falsy identifier.
\<close>

theorem createRoleAsync_existing_returns_null:
  assumes "checkRoleName roleName = Inr ()"
    and "\<exists>r \<in> set (roles st). r_id r = roleName"
  shows "createRoleAsync roleName options st = Inr (st, None)"
proof -
  from assms(2) obtain d where "findOne (\<lambda>r. r_id r = roleName) (roles st) = Some d"
    using findOne_Some_iff[of "\<lambda>r. r_id r = roleName" "roles st"] by blast
  then show ?thesis
    using assms(1) by (simp add: createRoleAsync_def updateOne_id)
qed

theorem createRoleAsync_existing_returns_null_witness:
  "checkRoleName ''admin'' = Inr () \<and>
   (\<exists>r \<in> set (roles store_admin_editor). r_id r = ''admin'') \<and>
   createRoleAsync ''admin'' (Some False) store_admin_editor = Inr (store_admin_editor, None)"
proof -
  have a: "checkRoleName ''admin'' = Inr ()" by (rule checkRoleName_admin)
  have b: "\<exists>r \<in> set (roles store_admin_editor). r_id r = ''admin''"
    by (simp add: store_admin_editor_def)
  from createRoleAsync_existing_returns_null[OF a b, of "Some False"] a b
  show ?thesis by simp
qed

text \<open>On a name that does not exist, the role is inserted without children.\<close>

lemma createRoleAsync_new:
  assumes "checkRoleName roleName = Inr ()"
    and "\<forall>r \<in> set (roles st). r_id r \<noteq> roleName"
  shows "createRoleAsync roleName options st =
         Inr (st\<lparr>roles := roles st @ [\<lparr>r_id = roleName, r_children = []\<rparr>]\<rparr>, Some roleName)"
proof -
  have "findOne (\<lambda>r. r_id r = roleName) (roles st) = None"
    using assms(2) by (simp add: findOne_None_iff)
  moreover have "roleName \<noteq> []"
    using assms(1) by (auto simp: checkRoleName_def split: if_splits)
  ultimately show ?thesis
    using assms by (auto simp: createRoleAsync_def insertRole_def)
qed

section \<open>Membership queries (C4, C10)\<close>

lemma asyncSome_iff: "asyncSome arr p \<longleftrightarrow> (\<exists>e \<in> set arr. p e)"
  by (induction arr) auto

lemma asyncSome_traced_eq:
  "asyncSome_traced arr p =
     (asyncSome arr p,
      takeWhile (\<lambda>e. \<not> p e) arr @ take 1 (dropWhile (\<lambda>e. \<not> p e) arr))"
  by (induction arr) auto

lemma inRole_query_iff:
  "inRole_query u opts st roleName \<longleftrightarrow>
   (\<exists>a \<in> set (roleAssignment st). inRole_selector u opts roleName a)"
  by (auto simp: inRole_query_def find_docs_def filter_empty_conv)

text \<open>
  The store \<open>store_two_grants\<close> is what two calls of \<^verbatim>\<open>addUsersToRoles\<close> build: one
  without a scope, one in the scope \<^verbatim>\<open>g1\<close>.
\<close>

lemma store_two_grants_built:
  "addUsersToRolesAsync (UsersOne (UserId ''u1'')) (NamesOne ''admin'') OptUndefined store_admin
     = Inr s1 \<Longrightarrow>
   addUsersToRolesAsync (UsersOne (UserId ''u1'')) (NamesOne ''admin'') (OptString ''g1'') s1
     = Inr store_two_grants"
  by (auto simp: addUsersToRolesAsync_def checkScopeName_def addUserToRoleAsync_def
      checkRoleName_admin findOne_def insertAssignment_def getInheritedRoleNamesAsync_empty
      store_admin_def store_two_grants_def checkScopeName_g1[unfolded checkScopeName_def, simplified])

text \<open>
  What \<^verbatim>\<open>userIsInRoleAsync\<close> returns once the roles left after filtering are not empty
  and the scope has passed \<^verbatim>\<open>_checkScopeName\<close>.
\<close>

lemma userIsInRoleAsync_value:
  assumes "checkScopeName (o_scope (normalizeOptions options)) = Inr ()"
    and "non_null (roles_array rs) \<noteq> []"
  shows "userIsInRoleAsync user rs options st =
         Inr (\<exists>u. resolve_id user = String u \<and> u \<noteq> [] \<and>
                (\<exists>a \<in> set (roleAssignment st).
                   a_user a = u \<and>
                   (o_anyScope (normalizeOptions options) \<or>
                    a_scope a = o_scope (normalizeOptions options) \<or> a_scope a = None) \<and>
                   (\<exists>r \<in> set (non_null (roles_array rs)). r \<in> set (a_inheritedRoles a))))"
proof (cases "resolve_id user")
  case (String u)
  show ?thesis
  proof (cases "u = []")
    case True
    with String assms show ?thesis by (simp add: userIsInRoleAsync_def Let_def)
  next
    case False
    with String assms show ?thesis
      by (auto simp add: userIsInRoleAsync_def Let_def asyncSome_iff inRole_query_iff
          inRole_selector_def)
  qed
qed (use assms in \<open>auto simp: userIsInRoleAsync_def Let_def\<close>)

lemma checkScopeName_g2: "checkScopeName (Some ''g2'') = Inr ()"
  by (simp add: checkScopeName_def js_trim_def is_js_space_def)

text \<open>The record of the run agrees with the method on every input.\<close>

lemma userIsInRoleAsync_traced_result:
  "map_sum id fst (userIsInRoleAsync_traced user rs options st) =
   userIsInRoleAsync user rs options st"
  by (cases "resolve_id user")
     (auto simp: userIsInRoleAsync_traced_def userIsInRoleAsync_def Let_def asyncSome_traced_eq
       split: sum.splits)

text \<open>
  C4: for a non-empty list of role names, \<^verbatim>\<open>userIsInRole\<close> returns true if and only if
  some assignment of the principal has one of the requested names among its
  \<^verbatim>\<open>inheritedRoles\<close>, in the requested scope or the global one, or in any scope when
  \<^verbatim>\<open>anyScope\<close> is set; and it stops at the first requested role that matches. As amended:
  this holds when the scope of the options passes \<^verbatim>\<open>_checkScopeName\<close>; a scope that does
  not gives that error, also when \<^verbatim>\<open>anyScope\<close> is set. The principal is the non-empty
  string the \<^verbatim>\<open>user\<close> argument resolves to. The run of the method has queried the
  requested roles up to and including the first that matches, and no other.
\<close>

theorem userIsInRoleAsync_iff:
  assumes "non_null (roles_array rs) \<noteq> []"
  shows "userIsInRoleAsync user rs options st =
         (case checkScopeName (o_scope (normalizeOptions options)) of
            Inl e \<Rightarrow> Inl e
          | Inr _ \<Rightarrow>
              Inr (\<exists>u. resolve_id user = String u \<and> u \<noteq> [] \<and>
                (\<exists>a \<in> set (roleAssignment st).
                   a_user a = u \<and>
                   (o_anyScope (normalizeOptions options) \<or>
                    a_scope a = o_scope (normalizeOptions options) \<or> a_scope a = None) \<and>
                   (\<exists>r \<in> set (non_null (roles_array rs)). r \<in> set (a_inheritedRoles a))))) \<and>
         userIsInRoleAsync_traced user rs options st =
         (case userIsInRoleAsync user rs options st of
            Inl e \<Rightarrow> Inl e
          | Inr b \<Rightarrow>
              Inr (b,
                case resolve_id user of
                  String u \<Rightarrow>
                    if u = [] then []
                    else
                      takeWhile (\<lambda>r. \<not> inRole_query u (normalizeOptions options) st r)
                        (non_null (roles_array rs)) @
                      take 1 (dropWhile (\<lambda>r. \<not> inRole_query u (normalizeOptions options) st r)
                        (non_null (roles_array rs)))
                | _ \<Rightarrow> []))"
proof
  show "userIsInRoleAsync user rs options st =
         (case checkScopeName (o_scope (normalizeOptions options)) of
            Inl e \<Rightarrow> Inl e
          | Inr _ \<Rightarrow>
              Inr (\<exists>u. resolve_id user = String u \<and> u \<noteq> [] \<and>
                (\<exists>a \<in> set (roleAssignment st).
                   a_user a = u \<and>
                   (o_anyScope (normalizeOptions options) \<or>
                    a_scope a = o_scope (normalizeOptions options) \<or> a_scope a = None) \<and>
                   (\<exists>r \<in> set (non_null (roles_array rs)). r \<in> set (a_inheritedRoles a)))))"
  proof (cases "checkScopeName (o_scope (normalizeOptions options))")
    case (Inl e)
    with assms show ?thesis by (simp add: userIsInRoleAsync_def Let_def)
  next
    case (Inr x)
    then have "checkScopeName (o_scope (normalizeOptions options)) = Inr ()" by simp
    from userIsInRoleAsync_value[OF this assms] Inr show ?thesis by simp
  qed
  show "userIsInRoleAsync_traced user rs options st =
         (case userIsInRoleAsync user rs options st of
            Inl e \<Rightarrow> Inl e
          | Inr b \<Rightarrow>
              Inr (b,
                case resolve_id user of
                  String u \<Rightarrow>
                    if u = [] then []
                    else
                      takeWhile (\<lambda>r. \<not> inRole_query u (normalizeOptions options) st r)
                        (non_null (roles_array rs)) @
                      take 1 (dropWhile (\<lambda>r. \<not> inRole_query u (normalizeOptions options) st r)
                        (non_null (roles_array rs)))
                | _ \<Rightarrow> []))"
    using assms
    by (cases "resolve_id user")
       (auto simp: userIsInRoleAsync_traced_def userIsInRoleAsync_def Let_def
         asyncSome_traced_eq split: sum.splits)
qed

text \<open>
  Instances: the grant of \<open>store_scoped_grant\<close> is in the scope \<^verbatim>\<open>g1\<close>. Asked in the
  scope \<^verbatim>\<open>g2\<close>, the user is in the role under \<^verbatim>\<open>anyScope\<close> and not without it. Asked for
  \<^verbatim>\<open>admin\<close> then \<^verbatim>\<open>editor\<close>, the run has queried \<^verbatim>\<open>admin\<close> alone; asked for \<^verbatim>\<open>editor\<close> then
  \<^verbatim>\<open>admin\<close>, both.
\<close>

theorem userIsInRoleAsync_iff_witness:
  "userIsInRoleAsync (Object [(''_id'', String ''u1'')])
     (RolesArray [JNull, JString ''editor'', JString ''admin'']) (any_scope (JString ''g2''))
     store_scoped_grant = Inr True \<and>
   userIsInRoleAsync (String ''u1'') (RolesOne (JString ''admin'')) (scoped (JString ''g2''))
     store_scoped_grant = Inr False \<and>
   userIsInRoleAsync_traced (String ''u1'') (RolesArray [JString ''admin'', JString ''editor''])
     (any_scope (JString ''g2'')) store_scoped_grant = Inr (True, [''admin'']) \<and>
   userIsInRoleAsync_traced (String ''u1'') (RolesArray [JString ''editor'', JString ''admin''])
     (any_scope (JString ''g2'')) store_scoped_grant = Inr (True, [''editor'', ''admin''])"
proof -
  have q: "inRole_query ''u1'' (normalizeOptions (any_scope (JString ''g2''))) store_scoped_grant
             r \<longleftrightarrow> r = ''admin''" for r
    by (auto simp: inRole_query_iff inRole_selector_def store_scoped_grant_def any_scope_def)
  have g: "checkScopeName (o_scope (normalizeOptions (any_scope (JString ''g2'')))) = Inr ()"
    "checkScopeName (o_scope (normalizeOptions (scoped (JString ''g2'')))) = Inr ()"
    by (simp_all add: any_scope_def scoped_def checkScopeName_g2)
  have 1: "userIsInRoleAsync (Object [(''_id'', String ''u1'')])
     (RolesArray [JNull, JString ''editor'', JString ''admin'']) (any_scope (JString ''g2''))
     store_scoped_grant = Inr True"
    using userIsInRoleAsync_iff[of "RolesArray [JNull, JString ''editor'', JString ''admin'']"
        "Object [(''_id'', String ''u1'')]" "any_scope (JString ''g2'')" store_scoped_grant] g
    by (simp add: store_scoped_grant_def any_scope_def)
  have 2: "userIsInRoleAsync (String ''u1'') (RolesOne (JString ''admin''))
     (scoped (JString ''g2'')) store_scoped_grant = Inr False"
    using userIsInRoleAsync_iff[of "RolesOne (JString ''admin'')" "String ''u1''"
        "scoped (JString ''g2'')" store_scoped_grant] g
    by (simp add: store_scoped_grant_def scoped_def)
  have 3: "userIsInRoleAsync_traced (String ''u1'')
     (RolesArray [JString ''admin'', JString ''editor''])
     (any_scope (JString ''g2'')) store_scoped_grant = Inr (True, [''admin''])"
    using userIsInRoleAsync_iff[of "RolesArray [JString ''admin'', JString ''editor'']"
        "String ''u1''" "any_scope (JString ''g2'')" store_scoped_grant] g
    by (simp add: q) (simp add: store_scoped_grant_def any_scope_def)
  have 4: "userIsInRoleAsync_traced (String ''u1'')
     (RolesArray [JString ''editor'', JString ''admin''])
     (any_scope (JString ''g2'')) store_scoped_grant = Inr (True, [''editor'', ''admin''])"
    using userIsInRoleAsync_iff[of "RolesArray [JString ''editor'', JString ''admin'']"
        "String ''u1''" "any_scope (JString ''g2'')" store_scoped_grant] g
    by (simp add: q) (simp add: store_scoped_grant_def any_scope_def)
  from 1 2 3 4 show ?thesis by simp
qed

text \<open>
  With \<^verbatim>\<open>anyScope\<close> set the scope is still checked: \<^verbatim>\<open>u1\<close> holds \<^verbatim>\<open>admin\<close>, and the query
  with the scope \<^verbatim>\<open>' x'\<close> gives the error of an invalid scope name, not true.
\<close>

theorem userIsInRoleAsync_anyScope_invalid_scope:
  "userIsInRoleAsync (String ''u1'') (RolesOne (JString ''admin'')) (any_scope (JString '' x''))
     store_global_grant = Inl (InvalidScopeName '' x'') \<and>
   (\<exists>a \<in> set (roleAssignment store_global_grant).
      a_user a = ''u1'' \<and> ''admin'' \<in> set (a_inheritedRoles a))"
  by (simp add: userIsInRoleAsync_def any_scope_def checkScopeName_def js_trim_def
      is_js_space_def store_global_grant_def)

text \<open>
  C10: \<^verbatim>\<open>userIsInRole\<close> returns false without an error on degenerate input. As amended:
  it does so whenever the roles are an empty array or hold only \<^verbatim>\<open>null\<close> and \<^verbatim>\<open>undefined\<close>
  entries; and, when the scope passes \<^verbatim>\<open>_checkScopeName\<close>, whenever the user is \<^verbatim>\<open>null\<close> or
  \<^verbatim>\<open>undefined\<close> or the resolved user id is not a string.
\<close>

theorem userIsInRoleAsync_degenerate:
  assumes "non_null (roles_array rs) = [] \<or>
           (checkScopeName (o_scope (normalizeOptions options)) = Inr () \<and>
            (user = Null \<or> user = Undefined \<or> (\<forall>s. resolve_id user \<noteq> String s)))"
  shows "userIsInRoleAsync user rs options st = Inr False"
  using assms
  by (cases "resolve_id user") (auto simp: userIsInRoleAsync_def Let_def)

theorem userIsInRoleAsync_degenerate_witness:
  "userIsInRoleAsync (String ''u1'') (RolesArray [JNull, JUndefined]) (OptString '' x'')
     store_global_grant = Inr False \<and>
   userIsInRoleAsync Null (RolesOne (JString ''admin'')) OptUndefined store_global_grant
     = Inr False \<and>
   userIsInRoleAsync (Object [(''_id'', Number 7)]) (RolesOne (JString ''admin''))
     (scoped (JString ''g1'')) store_global_grant = Inr False"
proof -
  have a: "non_null (roles_array (RolesArray [JNull, JUndefined])) = []" by simp
  have b: "checkScopeName (o_scope (normalizeOptions OptUndefined)) = Inr ()"
    by (simp add: checkScopeName_def)
  have c: "checkScopeName (o_scope (normalizeOptions (scoped (JString ''g1'')))) = Inr ()"
    by (simp add: scoped_def checkScopeName_g1)
  have d: "\<forall>s. resolve_id (Object [(''_id'', Number 7)]) \<noteq> String s" by simp
  show ?thesis
    using userIsInRoleAsync_degenerate[of "RolesArray [JNull, JUndefined]" "OptString '' x''"
        "String ''u1''" store_global_grant]
      userIsInRoleAsync_degenerate[of "RolesOne (JString ''admin'')" OptUndefined Null
        store_global_grant]
      userIsInRoleAsync_degenerate[of "RolesOne (JString ''admin'')" "scoped (JString ''g1'')"
        "Object [(''_id'', Number 7)]" store_global_grant]
      a b c d
    by blast
qed

text \<open>
  With a role to look for, the scope is checked before the user is looked at: a
  \<^verbatim>\<open>null\<close> user and the scope \<^verbatim>\<open>' x'\<close> give the error of an invalid scope name, not false.
\<close>

theorem userIsInRoleAsync_null_user_invalid_scope:
  "userIsInRoleAsync Null (RolesArray [JString ''admin'']) (OptString '' x'') store_admin =
   Inl (InvalidScopeName '' x'')"
  by (simp add: userIsInRoleAsync_def checkScopeName_def js_trim_def is_js_space_def)

section \<open>Revocation (C5)\<close>

text \<open>
  A call \<^verbatim>\<open>removeUsersFromRoles(P, R, {scope: S})\<close> that completes has removed exactly the
  assignments of \<^verbatim>\<open>P\<close> to \<^verbatim>\<open>R\<close> in the scope \<^verbatim>\<open>S\<close>.
\<close>

lemma removeUsersFromRoles_single:
  assumes "removeUsersFromRolesAsync (UsersOne (UserId P)) (NamesOne R) (scoped S) st = Inr st'"
  shows "P \<noteq> [] \<and> checkScopeName (normalizeScopeName S) = Inr () \<and>
         st' = st\<lparr>roleAssignment :=
                  filter (\<lambda>a. \<not> (a_user a = P \<and> a_role a = R \<and> a_scope a = normalizeScopeName S))
                    (roleAssignment st)\<rparr>"
  using assms
  by (auto simp: removeUsersFromRolesAsync_def scoped_def Let_def removeUserFromRoleAsync_def
      removeDocs_def split: if_splits sum.splits)

text \<open>
  C5: after \<^verbatim>\<open>removeUsersFromRoles(P, R, {scope: S})\<close> completes, no assignment of \<^verbatim>\<open>P\<close> to
  \<^verbatim>\<open>R\<close> in the scope \<^verbatim>\<open>S\<close> remains, and \<^verbatim>\<open>userIsInRole(P, R, {scope: S})\<close> is false. As
  amended: no such assignment remains, and \<^verbatim>\<open>userIsInRole(P, R, {scope: S})\<close> is true exactly
  when another assignment of \<^verbatim>\<open>P\<close>, in the scope \<^verbatim>\<open>S\<close> or the global one, has \<^verbatim>\<open>R\<close> among
  its \<^verbatim>\<open>inheritedRoles\<close>; it is false when there is none.
\<close>

theorem removeUsersFromRoles_then_userIsInRole:
  assumes "removeUsersFromRolesAsync (UsersOne (UserId P)) (NamesOne R) (scoped S) st = Inr st'"
  shows "(\<forall>a \<in> set (roleAssignment st').
            \<not> (a_user a = P \<and> a_role a = R \<and> a_scope a = normalizeScopeName S)) \<and>
         userIsInRoleAsync (String P) (RolesOne (JString R)) (scoped S) st' =
           Inr (\<exists>a \<in> set (roleAssignment st).
                  a_user a = P \<and> \<not> (a_role a = R \<and> a_scope a = normalizeScopeName S) \<and>
                  (a_scope a = normalizeScopeName S \<or> a_scope a = None) \<and>
                  R \<in> set (a_inheritedRoles a))"
proof -
  note r = removeUsersFromRoles_single[OF assms]
  have ok: "checkScopeName (o_scope (normalizeOptions (scoped S))) = Inr ()"
    using r by (simp add: scoped_def)
  have nn: "non_null (roles_array (RolesOne (JString R))) \<noteq> []" by simp
  show ?thesis
    using r unfolding userIsInRoleAsync_value[OF ok nn]
    by (auto simp: scoped_def)
qed

text \<open>
  An instance: once the only grant of \<open>store_global_grant\<close> is revoked, the user is in
  the role no more.
\<close>

theorem removeUsersFromRoles_then_userIsInRole_witness:
  "removeUsersFromRolesAsync (UsersOne (UserId ''u1'')) (NamesOne ''admin'') (scoped JNull)
     store_global_grant = Inr (store_global_grant\<lparr>roleAssignment := []\<rparr>) \<and>
   \<not> (\<exists>a \<in> set (roleAssignment (store_global_grant\<lparr>roleAssignment := []\<rparr>)).
            a_user a = ''u1'' \<and> a_role a = ''admin'' \<and> a_scope a = None) \<and>
   userIsInRoleAsync (String ''u1'') (RolesOne (JString ''admin'')) (scoped JNull)
     (store_global_grant\<lparr>roleAssignment := []\<rparr>) = Inr False"
proof -
  have a: "removeUsersFromRolesAsync (UsersOne (UserId ''u1'')) (NamesOne ''admin'')
     (scoped JNull) store_global_grant = Inr (store_global_grant\<lparr>roleAssignment := []\<rparr>)"
    by (simp add: removeUsersFromRolesAsync_def scoped_def checkScopeName_def
        removeUserFromRoleAsync_def checkRoleName_admin removeDocs_def store_global_grant_def)
  from removeUsersFromRoles_then_userIsInRole[OF a] a show ?thesis
    by (simp add: store_global_grant_def)
qed

text \<open>
  With \<^verbatim>\<open>admin\<close> granted to \<^verbatim>\<open>u1\<close> both globally and in the scope \<^verbatim>\<open>g1\<close>, revoking it in
  \<^verbatim>\<open>g1\<close> leaves \<^verbatim>\<open>userIsInRole(u1, admin, {scope: g1})\<close> true: the global grant counts in
  every scope.
\<close>

theorem revoked_in_scope_still_in_role:
  "removeUsersFromRolesAsync (UsersOne (UserId ''u1'')) (NamesOne ''admin'')
     (scoped (JString ''g1'')) store_two_grants = Inr store_global_grant \<and>
   userIsInRoleAsync (String ''u1'') (RolesOne (JString ''admin'')) (scoped (JString ''g1''))
     store_global_grant = Inr True"
  by (simp add: removeUsersFromRolesAsync_def scoped_def checkScopeName_g1
      removeUserFromRoleAsync_def checkRoleName_admin removeDocs_def store_two_grants_def
      store_global_grant_def userIsInRoleAsync_def asyncSome_iff inRole_query_def find_docs_def
      inRole_selector_def)

section \<open>Idempotent grant (C7)\<close>

lemma addUserToRoleAsync_existing:
  assumes "wf_store st" and "checkRoleName R = Inr ()" and "checkScopeName (o_scope opts) = Inr ()"
    and "P \<noteq> []" and "findOne (\<lambda>r. r_id r = R) (roles st) = Some role"
    and "findOne (\<lambda>a. a_user a = P \<and> a_role a = R \<and> a_scope a = o_scope opts)
           (roleAssignment st) = Some ex"
  shows "addUserToRoleAsync P R opts st = Inr (st, ResDoc ex)"
proof -
  from findOne_SomeD[OF assms(6)]
  have ex: "ex \<in> set (roleAssignment st)" "a_user ex = P" "a_role ex = R" "a_scope ex = o_scope opts"
    by auto
  have fx: "ex\<lparr>a_user := P, a_role := R, a_scope := o_scope opts\<rparr> = ex"
    using ex by simp
  have d: "distinct (map a_id (roleAssignment st))" using assms(1) by (simp add: wf_store_def)
  have u: "fst (updateOne (\<lambda>a. a_id a = a_id ex)
                (\<lambda>a. a\<lparr>a_user := P, a_role := R, a_scope := o_scope opts\<rparr>) (roleAssignment st))
           = roleAssignment st"
    using updateOne_by_id_fixed[of "roleAssignment st" ex
        "\<lambda>a. a\<lparr>a_user := P, a_role := R, a_scope := o_scope opts\<rparr>"] d ex(1) fx
    by simp
  show ?thesis
    using assms(2-6) by (simp add: addUserToRoleAsync_def u findOne_by_id[OF d ex(1)])
qed

lemma addUserToRoleAsync_new:
  assumes "wf_store st" and "checkRoleName R = Inr ()" and "checkScopeName (o_scope opts) = Inr ()"
    and "P \<noteq> []" and "findOne (\<lambda>r. r_id r = R) (roles st) = Some role"
    and "findOne (\<lambda>a. a_user a = P \<and> a_role a = R \<and> a_scope a = o_scope opts)
           (roleAssignment st) = None"
  shows "addUserToRoleAsync P R opts st =
         Inr (st\<lparr>roleAssignment := roleAssignment st @
                   [\<lparr>a_id = nextId st, a_user = P, a_role = R, a_scope = o_scope opts,
                     a_inheritedRoles = [R]\<rparr>],
                 nextId := Suc (nextId st)\<rparr>,
              ResDoc \<lparr>a_id = nextId st, a_user = P, a_role = R, a_scope = o_scope opts,
                     a_inheritedRoles = [R]\<rparr>)"
proof -
  have nm: "\<forall>d \<in> set (roleAssignment st). \<not> a_id d = nextId st"
    using assms(1) by (auto simp: wf_store_def)
  have fn: "findOne (\<lambda>a. a_id a = nextId st) (roleAssignment st) = None"
    using nm by (simp add: findOne_None_iff)
  show ?thesis
    using assms(2-6)
    by (simp add: addUserToRoleAsync_def insertAssignment_def Let_def
        getInheritedRoleNamesAsync_empty updateOne_append1[OF nm] findOne_append1 fn)
qed

text \<open>A second call on the store that a first call left changes nothing.\<close>

lemma addUserToRoleAsync_twice:
  assumes "wf_store st" and "addUserToRoleAsync P R opts st = Inr (st1, res1)"
  shows "addUserToRoleAsync P R opts st1 = Inr (st1, res1)"
proof -
  from assms(2) have v: "checkRoleName R = Inr ()" "checkScopeName (o_scope opts) = Inr ()"
    by (auto simp: addUserToRoleAsync_def split: sum.splits)
  show ?thesis
  proof (cases "P = []")
    case True
    with assms(2) v show ?thesis by (simp add: addUserToRoleAsync_def)
  next
    case False
    show ?thesis
    proof (cases "findOne (\<lambda>r. r_id r = R) (roles st)")
      case None
      with assms(2) v False show ?thesis
        by (auto simp: addUserToRoleAsync_def split: if_splits)
    next
      case (Some role)
      show ?thesis
      proof (cases "findOne (\<lambda>a. a_user a = P \<and> a_role a = R \<and> a_scope a = o_scope opts)
           (roleAssignment st)")
        case (Some ex)
        from addUserToRoleAsync_existing[OF assms(1) v False \<open>findOne _ (roles st) = Some role\<close> Some]
          assms(2)
        show ?thesis by simp
      next
        case None
        let ?new = "\<lparr>a_id = nextId st, a_user = P, a_role = R, a_scope = o_scope opts,
                     a_inheritedRoles = [R]\<rparr>"
        from addUserToRoleAsync_new[OF assms(1) v False \<open>findOne _ (roles st) = Some role\<close> None]
          assms(2)
        have st1: "st1 = st\<lparr>roleAssignment := roleAssignment st @ [?new],
                 nextId := Suc (nextId st)\<rparr>" and res1: "res1 = ResDoc ?new"
          by simp_all
        have wf1: "wf_store st1"
          using assms(1) by (auto simp: st1 wf_store_def)
        have r1: "findOne (\<lambda>r. r_id r = R) (roles st1) = Some role"
          using \<open>findOne _ (roles st) = Some role\<close> by (simp add: st1)
        have f1: "findOne (\<lambda>a. a_user a = P \<and> a_role a = R \<and> a_scope a = o_scope opts)
           (roleAssignment st1) = Some ?new"
          using None by (simp add: st1 findOne_append1)
        from addUserToRoleAsync_existing[OF wf1 v False r1 f1] res1
        show ?thesis by simp
      qed
    qed
  qed
qed

text \<open>After a call for a user and a role that exists, the assignment is there.\<close>

lemma addUserToRoleAsync_granted:
  assumes "wf_store st" and "addUserToRoleAsync P R opts st = Inr (st1, res1)"
    and "P \<noteq> []" and "\<exists>r \<in> set (roles st). r_id r = R"
  shows "\<exists>a. findOne (\<lambda>a. a_user a = P \<and> a_role a = R \<and> a_scope a = o_scope opts)
               (roleAssignment st1) = Some a \<and> res1 = ResDoc a"
proof -
  from assms(2) have v: "checkRoleName R = Inr ()" "checkScopeName (o_scope opts) = Inr ()"
    by (auto simp: addUserToRoleAsync_def split: sum.splits)
  from assms(4) obtain role where r: "findOne (\<lambda>r. r_id r = R) (roles st) = Some role"
    using findOne_Some_iff[of "\<lambda>r. r_id r = R" "roles st"] by blast
  show ?thesis
  proof (cases "findOne (\<lambda>a. a_user a = P \<and> a_role a = R \<and> a_scope a = o_scope opts)
           (roleAssignment st)")
    case (Some ex)
    from addUserToRoleAsync_existing[OF assms(1) v assms(3) r Some] assms(2) Some
    show ?thesis by simp
  next
    case None
    from addUserToRoleAsync_new[OF assms(1) v assms(3) r None] assms(2) None
    show ?thesis by (auto simp: findOne_append1)
  qed
qed

text \<open>The operation keeps what the store guarantees.\<close>

lemma addUserToRoleAsync_wf:
  assumes "wf_store st" and "addUserToRoleAsync P R opts st = Inr (st1, res1)"
  shows "wf_store st1"
proof -
  from assms(2) have v: "checkRoleName R = Inr ()" "checkScopeName (o_scope opts) = Inr ()"
    by (auto simp: addUserToRoleAsync_def split: sum.splits)
  show ?thesis
  proof (cases "P = []")
    case True
    with assms v show ?thesis by (simp add: addUserToRoleAsync_def)
  next
    case False
    show ?thesis
    proof (cases "findOne (\<lambda>r. r_id r = R) (roles st)")
      case None
      with assms v False show ?thesis
        by (auto simp: addUserToRoleAsync_def split: if_splits)
    next
      case (Some role)
      show ?thesis
      proof (cases "findOne (\<lambda>a. a_user a = P \<and> a_role a = R \<and> a_scope a = o_scope opts)
           (roleAssignment st)")
        case (Some ex)
        from addUserToRoleAsync_existing[OF assms(1) v False \<open>findOne _ (roles st) = Some role\<close> Some]
          assms
        show ?thesis by simp
      next
        case None
        from addUserToRoleAsync_new[OF assms(1) v False \<open>findOne _ (roles st) = Some role\<close> None]
          assms
        show ?thesis by (auto simp: wf_store_def)
      qed
    qed
  qed
qed

text \<open>
  C7: calling the add-user-to-role operation twice for the same principal, role and scope
  yields the same state as calling it once. A second call of \<^verbatim>\<open>_addUserToRoleAsync\<close>, made
  on the store the first call left, returns what the first returned and leaves that store
  as it is: it inserts no record and changes none, so every query of the store answers as
  after one call. For a user and a role that exists, the first call leaves an assignment of
  the (principal, role, scope), which is the one the second call finds and returns.
\<close>

theorem addUserToRoleAsync_idempotent:
  assumes "wf_store st" and "addUserToRoleAsync P R opts st = Inr (st1, res1)"
  shows "addUserToRoleAsync P R opts st1 = Inr (st1, res1) \<and>
         (P \<noteq> [] \<longrightarrow> (\<exists>r \<in> set (roles st). r_id r = R) \<longrightarrow>
            (\<exists>a. findOne (\<lambda>a. a_user a = P \<and> a_role a = R \<and> a_scope a = o_scope opts)
                    (roleAssignment st1) = Some a \<and> res1 = ResDoc a))"
  using addUserToRoleAsync_twice[OF assms] addUserToRoleAsync_granted[OF assms] by blast

theorem addUserToRoleAsync_idempotent_witness:
  "wf_store store_admin \<and>
   addUserToRoleAsync ''u1'' ''admin'' (normalizeOptions OptUndefined) store_admin =
     Inr (store_one_grant, ResDoc \<lparr>a_id = 0, a_user = ''u1'', a_role = ''admin'',
            a_scope = None, a_inheritedRoles = [''admin'']\<rparr>) \<and>
   addUserToRoleAsync ''u1'' ''admin'' (normalizeOptions OptUndefined) store_one_grant =
     Inr (store_one_grant, ResDoc \<lparr>a_id = 0, a_user = ''u1'', a_role = ''admin'',
            a_scope = None, a_inheritedRoles = [''admin'']\<rparr>)"
proof -
  have a: "wf_store store_admin" by (simp add: wf_store_def store_admin_def)
  have b: "addUserToRoleAsync ''u1'' ''admin'' (normalizeOptions OptUndefined) store_admin =
     Inr (store_one_grant, ResDoc \<lparr>a_id = 0, a_user = ''u1'', a_role = ''admin'',
            a_scope = None, a_inheritedRoles = [''admin'']\<rparr>)"
    by (simp add: addUserToRoleAsync_def checkRoleName_admin checkScopeName_def findOne_def
        insertAssignment_def getInheritedRoleNamesAsync_empty store_admin_def
        store_one_grant_def)
  from addUserToRoleAsync_idempotent[OF a b] a b show ?thesis by simp
qed

section \<open>setUserRolesAsync (C6)\<close>

text \<open>
  What one addition does to a store: the roles stay, the grant is there if the role
  exists, and a document of the new store is one of the old store or the one inserted.
\<close>

lemma addUserToRole_effect:
  assumes "wf_store st" and "addUserToRole uid r opts st = Inr st'"
  shows "wf_store st' \<and> roles st' = roles st \<and> nextId st \<le> nextId st' \<and>
         grants st' = grants st \<union>
           (if \<exists>d \<in> set (roles st). r_id d = r then {(uid, r, o_scope opts)} else {}) \<and>
         (\<forall>a \<in> set (roleAssignment st').
            a \<in> set (roleAssignment st) \<or>
            (a_id a = nextId st \<and> a_user a = uid \<and> a_scope a = o_scope opts)) \<and>
         filter (\<lambda>a. \<not> clear_selector uid opts a) (roleAssignment st') =
         filter (\<lambda>a. \<not> clear_selector uid opts a) (roleAssignment st)"
proof (cases "findOne (\<lambda>d. r_id d = r) (roles st)")
  case None
  then have "\<not> (\<exists>d \<in> set (roles st). r_id d = r)" by (simp add: findOne_None_iff)
  with None assms show ?thesis by (auto simp: addUserToRole_def split: if_splits)
next
  case (Some role)
  then have ex: "\<exists>d \<in> set (roles st). r_id d = r"
    using findOne_Some_iff[of "\<lambda>d. r_id d = r" "roles st"] by blast
  show ?thesis
  proof (cases "findOne (\<lambda>a. a_user a = uid \<and> a_role a = r \<and> a_scope a = o_scope opts)
           (roleAssignment st)")
    case (Some e)
    from findOne_SomeD[OF Some]
    have e: "e \<in> set (roleAssignment st)" "a_user e = uid" "a_role e = r" "a_scope e = o_scope opts"
      by auto
    have fx: "e\<lparr>a_user := uid, a_role := r, a_scope := o_scope opts\<rparr> = e"
      using e by simp
    have d: "distinct (map a_id (roleAssignment st))" using assms(1) by (simp add: wf_store_def)
    have u: "fst (updateOne (\<lambda>a. a_id a = a_id e)
                (\<lambda>a. a\<lparr>a_user := uid, a_role := r, a_scope := o_scope opts\<rparr>) (roleAssignment st))
           = roleAssignment st"
      using updateOne_by_id_fixed[of "roleAssignment st" e
        "\<lambda>a. a\<lparr>a_user := uid, a_role := r, a_scope := o_scope opts\<rparr>"] d e(1) fx
      by simp
    have "st' = st"
      using assms(2) \<open>findOne _ (roles st) = Some role\<close> Some by (simp add: addUserToRole_def u)
    moreover have "(uid, r, o_scope opts) \<in> grants st"
      using e by (force simp: grants_def)
    ultimately show ?thesis using assms(1) ex by auto
  next
    case None
    have nm: "\<forall>d \<in> set (roleAssignment st). \<not> a_id d = nextId st"
      using assms(1) by (auto simp: wf_store_def)
    have "st' = st\<lparr>roleAssignment := roleAssignment st @
                   [\<lparr>a_id = nextId st, a_user = uid, a_role = r, a_scope = o_scope opts,
                     a_inheritedRoles = inheritedClosureOf
                        (fst (insertAssignment uid r (o_scope opts) st)) r\<rparr>],
                 nextId := Suc (nextId st)\<rparr>"
      using assms(2) \<open>findOne _ (roles st) = Some role\<close> None
      by (auto simp add: addUserToRole_def insertAssignment_def Let_def updateOne_append1[OF nm])
    then show ?thesis
      using assms(1) ex by (auto simp: wf_store_def grants_def clear_selector_def)
  qed
qed

text \<open>The same for the loop over the requested roles.\<close>

lemma setUserRoles_roles_effect:
  assumes "wf_store st" and "setUserRoles_roles uid rs opts st = Inr st'"
  shows "wf_store st' \<and> roles st' = roles st \<and> nextId st \<le> nextId st' \<and>
         grants st' = grants st \<union>
           {(uid, r, o_scope opts) | r. r \<in> set rs \<and> (\<exists>d \<in> set (roles st). r_id d = r)} \<and>
         (\<forall>a \<in> set (roleAssignment st').
            a \<in> set (roleAssignment st) \<or>
            (nextId st \<le> a_id a \<and> a_user a = uid \<and> a_scope a = o_scope opts)) \<and>
         filter (\<lambda>a. \<not> clear_selector uid opts a) (roleAssignment st') =
         filter (\<lambda>a. \<not> clear_selector uid opts a) (roleAssignment st)"
  using assms
proof (induction rs arbitrary: st)
  case Nil
  then show ?case by simp
next
  case (Cons r rs)
  from Cons.prems(2) obtain s1 where a: "addUserToRole uid r opts st = Inr s1"
    and b: "setUserRoles_roles uid rs opts s1 = Inr st'"
    by (auto split: sum.splits)
  note e1 = addUserToRole_effect[OF Cons.prems(1) a]
  from e1 have wf1: "wf_store s1" by simp
  note e2 = Cons.IH[OF wf1 b]
  have prov: "\<forall>a \<in> set (roleAssignment st').
            a \<in> set (roleAssignment st) \<or>
            (nextId st \<le> a_id a \<and> a_user a = uid \<and> a_scope a = o_scope opts)"
  proof
    fix x assume "x \<in> set (roleAssignment st')"
    with e2 consider "x \<in> set (roleAssignment s1)"
      | "nextId s1 \<le> a_id x \<and> a_user x = uid \<and> a_scope x = o_scope opts"
      by blast
    then show "x \<in> set (roleAssignment st) \<or>
            (nextId st \<le> a_id x \<and> a_user x = uid \<and> a_scope x = o_scope opts)"
    proof cases
      case 1
      with e1 show ?thesis by auto
    next
      case 2
      with e1 show ?thesis by auto
    qed
  qed
  have rest: "wf_store st' \<and> roles st' = roles st \<and> nextId st \<le> nextId st' \<and>
         grants st' = grants st \<union>
           {(uid, r', o_scope opts) | r'. r' \<in> set (r # rs) \<and>
              (\<exists>d \<in> set (roles st). r_id d = r')} \<and>
         filter (\<lambda>a. \<not> clear_selector uid opts a) (roleAssignment st') =
         filter (\<lambda>a. \<not> clear_selector uid opts a) (roleAssignment st)"
    using e1 e2 by (auto split: if_splits)
  from rest prov show ?case by blast
qed

text \<open>
  Whether the loop returns: an addition fails only for a role that does not exist, and
  only when \<^verbatim>\<open>ifExists\<close> is not set; the loop then fails at the first such role.
\<close>

lemma addUserToRole_returns:
  assumes "(\<exists>d \<in> set (roles s). r_id d = r) \<or> o_ifExists opts"
  shows "\<exists>s'. addUserToRole uid r opts s = Inr s' \<and> roles s' = roles s"
proof (cases "findOne (\<lambda>d. r_id d = r) (roles s)")
  case None
  then have "\<not> (\<exists>d \<in> set (roles s). r_id d = r)" by (simp add: findOne_None_iff)
  with assms None show ?thesis by (simp add: addUserToRole_def)
next
  case (Some role)
  then show ?thesis
    by (cases "findOne (\<lambda>a. a_user a = uid \<and> a_role a = r \<and> a_scope a = o_scope opts)
           (roleAssignment s)")
       (simp_all add: addUserToRole_def insertAssignment_def Let_def)
qed

lemma addUserToRole_fails:
  assumes "\<not> (\<exists>d \<in> set (roles s). r_id d = r)" and "\<not> o_ifExists opts"
  shows "addUserToRole uid r opts s = Inl (RoleDoesNotExist r)"
proof -
  from assms(1) have "findOne (\<lambda>d. r_id d = r) (roles s) = None" by (simp add: findOne_None_iff)
  with assms(2) show ?thesis by (simp add: addUserToRole_def)
qed

lemma setUserRoles_roles_outcome:
  "if o_ifExists opts \<or> (\<forall>r \<in> set rs. \<exists>d \<in> set (roles s). r_id d = r)
   then \<exists>s'. setUserRoles_roles uid rs opts s = Inr s'
   else \<exists>r. findOne (\<lambda>r. \<not> (\<exists>d \<in> set (roles s). r_id d = r)) rs = Some r \<and>
            setUserRoles_roles uid rs opts s = Inl (RoleDoesNotExist r)"
proof (induction rs arbitrary: s)
  case Nil
  then show ?case by simp
next
  case (Cons r rs)
  show ?case
  proof (cases "(\<exists>d \<in> set (roles s). r_id d = r) \<or> o_ifExists opts")
    case True
    from addUserToRole_returns[OF True, of uid] obtain s1 where
      a: "addUserToRole uid r opts s = Inr s1" and b: "roles s1 = roles s" by blast
    from Cons.IH[of s1] a b True show ?thesis
      by (auto simp: findOne_def split: if_splits)
  next
    case False
    with addUserToRole_fails[of s r opts uid] show ?thesis
      by (auto simp: findOne_def)
  qed
qed

lemma wf_store_filter:
  "wf_store st \<Longrightarrow> wf_store (st\<lparr>roleAssignment := filter keep (roleAssignment st)\<rparr>)"
  by (auto simp: wf_store_def distinct_map_filter)

text \<open>A call for one user that passes the checks on its arguments is the loop on the cleared store.\<close>

lemma setUserRolesAsync_run:
  assumes "\<not> users_falsy (UsersOne u)" and "\<not> names_falsy rs"
    and "checkScopeName (o_scope (normalizeOptions options)) = Inr ()"
  shows "setUserRolesAsync (UsersOne u) rs options st =
         setUserRoles_roles (user_id u) (names_array rs) (normalizeOptions options)
           (st\<lparr>roleAssignment :=
                 filter (\<lambda>a. \<not> clear_selector (user_id u) (normalizeOptions options) a)
                   (roleAssignment st)\<rparr>)"
  using assms
  by (auto simp: setUserRolesAsync_def Let_def setUserRoles_user_def removeDocs_def
      split: sum.splits)

lemma setUserRolesAsync_checks:
  assumes "setUserRolesAsync (UsersOne u) rs options st = Inr st'"
  shows "\<not> users_falsy (UsersOne u) \<and> \<not> names_falsy rs \<and>
         checkScopeName (o_scope (normalizeOptions options)) = Inr ()"
  using assms
  by (auto simp: setUserRolesAsync_def Let_def split: if_splits sum.splits)

text \<open>
  C6: \<^verbatim>\<open>setUserRoles\<close> first removes the assignments of the principal in the requested
  scope (all of them when \<^verbatim>\<open>anyScope\<close> is set), then adds each requested role, so that the
  roles of the principal in that scope are exactly the requested ones. As amended: when the
  call completes, they are exactly the requested roles that exist in the Role Store; a
  requested role that does not exist is passed over when \<^verbatim>\<open>ifExists\<close> is set and makes
  the call fail otherwise.

  The theorem is about a call for one user on a store with unique identifiers. Its first
  part is about a call that returned: the Role Store is as before; the roles the principal
  holds in the requested scope are the requested roles that exist; every assignment the
  clearing selector matches (the principal, in the requested scope, or in any scope under
  \<^verbatim>\<open>anyScope\<close>) is a document inserted by this call, in the requested scope, so that all
  the old ones are gone; and the assignments the selector does not match are kept. Its
  second part says when the call returns and when it fails: it fails on a falsy argument
  and on a scope that does not pass its check; otherwise it returns if \<^verbatim>\<open>ifExists\<close> is
  set or every requested role exists, and else fails with the error of the first requested
  role that does not exist.
\<close>

theorem setUserRolesAsync_replaces:
  assumes "wf_store st"
  shows "(\<forall>st'. setUserRolesAsync (UsersOne u) rs options st = Inr st' \<longrightarrow>
            roles st' = roles st \<and>
            {a_role a | a. a \<in> set (roleAssignment st') \<and> a_user a = user_id u \<and>
                           a_scope a = o_scope (normalizeOptions options)} =
            {r \<in> set (names_array rs). \<exists>d \<in> set (roles st). r_id d = r} \<and>
            (\<forall>a \<in> set (roleAssignment st').
               a_user a = user_id u \<and>
               (o_anyScope (normalizeOptions options) \<or>
                a_scope a = o_scope (normalizeOptions options)) \<longrightarrow>
               nextId st \<le> a_id a \<and> a_scope a = o_scope (normalizeOptions options)) \<and>
            filter (\<lambda>a. \<not> (a_user a = user_id u \<and>
                             (o_anyScope (normalizeOptions options) \<or>
                              a_scope a = o_scope (normalizeOptions options))))
              (roleAssignment st') =
            filter (\<lambda>a. \<not> (a_user a = user_id u \<and>
                             (o_anyScope (normalizeOptions options) \<or>
                              a_scope a = o_scope (normalizeOptions options))))
              (roleAssignment st)) \<and>
         (users_falsy (UsersOne u) \<longrightarrow>
            setUserRolesAsync (UsersOne u) rs options st = Inl MissingUsersParam) \<and>
         (\<not> users_falsy (UsersOne u) \<longrightarrow> names_falsy rs \<longrightarrow>
            setUserRolesAsync (UsersOne u) rs options st = Inl MissingRolesParam) \<and>
         (\<not> users_falsy (UsersOne u) \<longrightarrow> \<not> names_falsy rs \<longrightarrow>
            checkScopeName (o_scope (normalizeOptions options)) = Inl e \<longrightarrow>
            setUserRolesAsync (UsersOne u) rs options st = Inl e) \<and>
         (\<not> users_falsy (UsersOne u) \<longrightarrow> \<not> names_falsy rs \<longrightarrow>
            checkScopeName (o_scope (normalizeOptions options)) = Inr () \<longrightarrow>
            (if o_ifExists (normalizeOptions options) \<or>
                (\<forall>r \<in> set (names_array rs). \<exists>d \<in> set (roles st). r_id d = r)
             then \<exists>st'. setUserRolesAsync (UsersOne u) rs options st = Inr st'
             else \<exists>r. findOne (\<lambda>r. \<not> (\<exists>d \<in> set (roles st). r_id d = r)) (names_array rs) =
                        Some r \<and>
                      setUserRolesAsync (UsersOne u) rs options st =
                        Inl (RoleDoesNotExist r)))"
proof (intro conjI allI impI)
  let ?uid = "user_id u" and ?opts = "normalizeOptions options"
  let ?cleared = "st\<lparr>roleAssignment :=
                 filter (\<lambda>a. \<not> clear_selector ?uid ?opts a) (roleAssignment st)\<rparr>"
  have wfc: "wf_store ?cleared" by (rule wf_store_filter[OF assms])
  {
    fix st' assume ret: "setUserRolesAsync (UsersOne u) rs options st = Inr st'"
    note c = setUserRolesAsync_checks[OF ret]
    from ret setUserRolesAsync_run[of u rs options st] c
    have run: "setUserRoles_roles ?uid (names_array rs) ?opts ?cleared = Inr st'" by simp
    note eff = setUserRoles_roles_effect[OF wfc run]
    have g: "grants st' = grants ?cleared \<union>
           {(?uid, r, o_scope ?opts) | r. r \<in> set (names_array rs) \<and>
              (\<exists>d \<in> set (roles st). r_id d = r)}"
      using eff by simp
    have none: "\<And>r. (?uid, r, o_scope ?opts) \<notin> grants ?cleared"
      by (auto simp: grants_def clear_selector_def)
    have mem: "\<And>r s. (?uid, r, s) \<in> grants st' \<longleftrightarrow>
               (\<exists>a \<in> set (roleAssignment st'). a_user a = ?uid \<and> a_role a = r \<and> a_scope a = s)"
      by (force simp: grants_def)
    show "roles st' = roles st" using eff by simp
    show "{a_role a | a. a \<in> set (roleAssignment st') \<and> a_user a = ?uid \<and>
                        a_scope a = o_scope ?opts} =
         {r \<in> set (names_array rs). \<exists>d \<in> set (roles st). r_id d = r}" (is "?L = ?R")
    proof (rule set_eqI)
      fix r
      have "r \<in> ?L \<longleftrightarrow> (?uid, r, o_scope ?opts) \<in> grants st'"
        unfolding mem by auto
      also have "\<dots> \<longleftrightarrow> r \<in> ?R"
        unfolding g using none by auto
      finally show "r \<in> ?L \<longleftrightarrow> r \<in> ?R" .
    qed
    have prov: "\<forall>a \<in> set (roleAssignment st').
            a \<in> set (roleAssignment ?cleared) \<or>
            (nextId ?cleared \<le> a_id a \<and> a_user a = ?uid \<and> a_scope a = o_scope ?opts)"
      using eff by blast
    show "\<forall>a \<in> set (roleAssignment st').
            a_user a = ?uid \<and> (o_anyScope ?opts \<or> a_scope a = o_scope ?opts) \<longrightarrow>
            nextId st \<le> a_id a \<and> a_scope a = o_scope ?opts"
    proof (intro ballI impI)
      fix a assume a: "a \<in> set (roleAssignment st')"
        and m: "a_user a = ?uid \<and> (o_anyScope ?opts \<or> a_scope a = o_scope ?opts)"
      from m have "a \<notin> set (roleAssignment ?cleared)"
        by (auto simp: clear_selector_def)
      with prov a show "nextId st \<le> a_id a \<and> a_scope a = o_scope ?opts" by auto
    qed
    show "filter (\<lambda>a. \<not> (a_user a = ?uid \<and> (o_anyScope ?opts \<or> a_scope a = o_scope ?opts)))
              (roleAssignment st') =
          filter (\<lambda>a. \<not> (a_user a = ?uid \<and> (o_anyScope ?opts \<or> a_scope a = o_scope ?opts)))
              (roleAssignment st)"
      using eff by (simp add: clear_selector_def)
  }
  show "setUserRolesAsync (UsersOne u) rs options st = Inl MissingUsersParam"
    if "users_falsy (UsersOne u)"
    using that by (simp add: setUserRolesAsync_def)
  show "setUserRolesAsync (UsersOne u) rs options st = Inl MissingRolesParam"
    if "\<not> users_falsy (UsersOne u)" "names_falsy rs"
    using that by (simp add: setUserRolesAsync_def)
  show "setUserRolesAsync (UsersOne u) rs options st = Inl e"
    if "\<not> users_falsy (UsersOne u)" "\<not> names_falsy rs"
      "checkScopeName (o_scope (normalizeOptions options)) = Inl e"
    using that by (simp add: setUserRolesAsync_def Let_def)
  show "if o_ifExists ?opts \<or> (\<forall>r \<in> set (names_array rs). \<exists>d \<in> set (roles st). r_id d = r)
        then \<exists>st'. setUserRolesAsync (UsersOne u) rs options st = Inr st'
        else \<exists>r. findOne (\<lambda>r. \<not> (\<exists>d \<in> set (roles st). r_id d = r)) (names_array rs) = Some r \<and>
                 setUserRolesAsync (UsersOne u) rs options st = Inl (RoleDoesNotExist r)"
    if "\<not> users_falsy (UsersOne u)" "\<not> names_falsy rs"
      "checkScopeName (o_scope (normalizeOptions options)) = Inr ()"
  proof -
    have rc: "roles ?cleared = roles st" by simp
    have "if o_ifExists ?opts \<or> (\<forall>r \<in> set (names_array rs). \<exists>d \<in> set (roles st). r_id d = r)
        then \<exists>st'. setUserRoles_roles ?uid (names_array rs) ?opts ?cleared = Inr st'
        else \<exists>r. findOne (\<lambda>r. \<not> (\<exists>d \<in> set (roles st). r_id d = r)) (names_array rs) = Some r \<and>
                 setUserRoles_roles ?uid (names_array rs) ?opts ?cleared =
                   Inl (RoleDoesNotExist r)"
      using setUserRoles_roles_outcome[of ?opts "names_array rs" ?cleared ?uid]
      by (simp only: rc)
    then show ?thesis
      unfolding setUserRolesAsync_run[OF that] .
  qed
qed

text \<open>
  Instances on \<open>store_two_grants\<close>: \<^verbatim>\<open>admin\<close> requested twice in the scope \<^verbatim>\<open>g1\<close>
  leaves one new grant there beside the global one; \<^verbatim>\<open>admin\<close> requested in the scope
  \<^verbatim>\<open>g2\<close> under \<^verbatim>\<open>anyScope\<close> leaves that grant alone; \<^verbatim>\<open>admin\<close> and \<^verbatim>\<open>ghost\<close> requested
  without \<^verbatim>\<open>ifExists\<close> fail on \<^verbatim>\<open>ghost\<close>.
\<close>

theorem setUserRolesAsync_replaces_witness:
  "wf_store store_two_grants \<and>
   setUserRolesAsync (UsersOne (UserId ''u1'')) (NamesArray [''admin'', ''admin''])
     (scoped (JString ''g1'')) store_two_grants = Inr store_regranted \<and>
   {a_role a | a. a \<in> set (roleAssignment store_regranted) \<and> a_user a = ''u1'' \<and>
                  a_scope a = Some ''g1''} = {''admin''} \<and>
   setUserRolesAsync (UsersOne (UserId ''u1'')) (NamesOne ''admin'')
     (any_scope (JString ''g2'')) store_two_grants = Inr store_any_regranted \<and>
   \<not> (\<exists>a \<in> set (roleAssignment store_any_regranted).
        a_user a = ''u1'' \<and> \<not> (2 \<le> a_id a \<and> a_scope a = Some ''g2'')) \<and>
   setUserRolesAsync (UsersOne (UserId ''u1'')) (NamesArray [''admin'', ''ghost''])
     (scoped JNull) store_two_grants = Inl (RoleDoesNotExist ''ghost'')"
proof -
  have a: "wf_store store_two_grants" by (simp add: wf_store_def store_two_grants_def)
  have b: "setUserRolesAsync (UsersOne (UserId ''u1'')) (NamesArray [''admin'', ''admin''])
     (scoped (JString ''g1'')) store_two_grants = Inr store_regranted"
    by (simp add: setUserRolesAsync_def scoped_def checkScopeName_g1 setUserRoles_user_def
        removeDocs_def clear_selector_def addUserToRole_def findOne_def insertAssignment_def
        inheritedClosureOf_def descendantsOf_def children_of_def store_two_grants_def
        store_regranted_def)
  have c: "setUserRolesAsync (UsersOne (UserId ''u1'')) (NamesOne ''admin'')
     (any_scope (JString ''g2'')) store_two_grants = Inr store_any_regranted"
    by (simp add: setUserRolesAsync_def any_scope_def checkScopeName_g2 setUserRoles_user_def
        removeDocs_def clear_selector_def addUserToRole_def findOne_def insertAssignment_def
        inheritedClosureOf_def descendantsOf_def children_of_def store_two_grants_def
        store_any_regranted_def)
  note t1 = setUserRolesAsync_replaces[OF a, where u = "UserId ''u1''" and
      rs = "NamesArray [''admin'', ''admin'']" and options = "scoped (JString ''g1'')"]
  from t1 b
  have "{a_role a | a. a \<in> set (roleAssignment store_regranted) \<and> a_user a = ''u1'' \<and>
                  a_scope a = Some ''g1''} =
        {r \<in> set [''admin'', ''admin'']. \<exists>d \<in> set (roles store_two_grants). r_id d = r}"
    by (simp add: scoped_def)
  also have "\<dots> = {''admin''}"
    by (auto simp: store_two_grants_def)
  finally have d: "{a_role a | a. a \<in> set (roleAssignment store_regranted) \<and> a_user a = ''u1'' \<and>
                  a_scope a = Some ''g1''} = {''admin''}" .
  note t2 = setUserRolesAsync_replaces[OF a, where u = "UserId ''u1''" and
      rs = "NamesOne ''admin''" and options = "any_scope (JString ''g2'')"]
  from t2 c
  have "\<forall>a \<in> set (roleAssignment store_any_regranted).
          a_user a = ''u1'' \<longrightarrow> nextId store_two_grants \<le> a_id a \<and> a_scope a = Some ''g2''"
    by (simp add: any_scope_def)
  then have e: "\<not> (\<exists>a \<in> set (roleAssignment store_any_regranted).
        a_user a = ''u1'' \<and> \<not> (2 \<le> a_id a \<and> a_scope a = Some ''g2''))"
    by (simp add: store_two_grants_def)
  note t3 = setUserRolesAsync_replaces[OF a, where u = "UserId ''u1''" and
      rs = "NamesArray [''admin'', ''ghost'']" and options = "scoped JNull"]
  have f: "findOne (\<lambda>r. \<not> (\<exists>d \<in> set (roles store_two_grants). r_id d = r)) [''admin'', ''ghost'']
             = Some ''ghost''"
    by (simp add: findOne_def store_two_grants_def)
  from t3 f
  have g: "setUserRolesAsync (UsersOne (UserId ''u1'')) (NamesArray [''admin'', ''ghost''])
     (scoped JNull) store_two_grants = Inl (RoleDoesNotExist ''ghost'')"
    by (auto simp: scoped_def checkScopeName_def store_two_grants_def split: if_splits)
  from a b c d e g show ?thesis by simp
qed

text \<open>
  With \<^verbatim>\<open>ifExists\<close> set, a requested role that does not exist is passed over: the roles
  \<^verbatim>\<open>admin\<close> and \<^verbatim>\<open>ghost\<close> are requested, and the principal ends with \<^verbatim>\<open>admin\<close> alone.
\<close>

theorem setUserRolesAsync_skips_missing_role:
  "setUserRolesAsync (UsersOne (UserId ''u1'')) (NamesArray [''admin'', ''ghost''])
     (OptObject \<lparr>oo_scope = JNull, oo_anyScope = False, oo_ifExists = True\<rparr>) store_admin =
     Inr store_one_grant \<and>
   map a_role (roleAssignment store_one_grant) = [''admin'']"
  by (simp add: setUserRolesAsync_def checkScopeName_def setUserRoles_user_def
      removeDocs_def clear_selector_def addUserToRole_def findOne_def insertAssignment_def
      inheritedClosureOf_def descendantsOf_def children_of_def store_admin_def
      store_one_grant_def)

section \<open>isParentOfAsync (C8)\<close>

lemma children_of_mem:
  assumes "c \<in> set (children_of st p)"
  shows "\<exists>r \<in> set (roles st). r_id r = p \<and> c \<in> set (r_children r)"
proof (cases "findOne (\<lambda>r. r_id r = p) (roles st)")
  case None
  with assms show ?thesis by (simp add: children_of_def)
next
  case (Some r)
  from findOne_SomeD[OF Some] assms Some show ?thesis
    by (auto simp: children_of_def)
qed

lemma children_edges_finite: "finite (children_edges st)"
proof -
  have "children_edges st \<subseteq>
        (r_id ` set (roles st)) \<times> (\<Union>r \<in> set (roles st). set (r_children r))"
    using children_of_mem by (fastforce simp: children_edges_def)
  moreover have "finite ((r_id ` set (roles st)) \<times> (\<Union>r \<in> set (roles st). set (r_children r)))"
    by simp
  ultimately show ?thesis by (rule finite_subset)
qed

lemma isParentOf_loop_step:
  assumes "rolesToCheck \<noteq> []" and "last rolesToCheck \<noteq> childRoleName"
  shows "isParentOf_loop st childRoleName rolesToCheck =
         isParentOf_loop st childRoleName
           (butlast rolesToCheck @ children_of st (last rolesToCheck))"
  using assms
  by (subst isParentOf_loop.simps) (simp add: children_of_def split: option.splits)

lemma reaches_unfold:
  "(n, c) \<in> (children_edges st)\<^sup>* \<longleftrightarrow>
   n = c \<or> (\<exists>m \<in> set (children_of st n). (m, c) \<in> (children_edges st)\<^sup>*)"
proof
  assume "(n, c) \<in> (children_edges st)\<^sup>*"
  then show "n = c \<or> (\<exists>m \<in> set (children_of st n). (m, c) \<in> (children_edges st)\<^sup>*)"
    by (cases rule: converse_rtranclE) (auto simp: children_edges_def)
next
  assume "n = c \<or> (\<exists>m \<in> set (children_of st n). (m, c) \<in> (children_edges st)\<^sup>*)"
  then show "(n, c) \<in> (children_edges st)\<^sup>*"
    by (auto simp: children_edges_def intro: converse_rtrancl_into_rtrancl)
qed

lemma isParentOf_loop_acyclic:
  assumes "acyclic (children_edges st)"
  shows "isParentOf_loop st c stack = Some (\<exists>n \<in> set stack. (n, c) \<in> (children_edges st)\<^sup>*)"
proof -
  have wf: "wf (mult ((children_edges st)\<inverse>))"
    by (rule wf_mult[OF finite_acyclic_wf_converse[OF children_edges_finite assms]])
  show ?thesis
  proof (induction "mset stack" arbitrary: stack rule: wf_induct_rule[OF wf])
    case 1
    show ?case
    proof (cases "stack = []")
      case True
      then show ?thesis by (subst isParentOf_loop.simps) simp
    next
      case False
      then have "stack = butlast stack @ [last stack]" by simp
      then obtain rest top where st: "stack = rest @ [top]" by blast
      show ?thesis
      proof (cases "top = c")
        case True
        then show ?thesis by (subst isParentOf_loop.simps) (auto simp: st)
      next
        case ne: False
        have "(mset rest + mset (children_of st top), mset rest + {#top#})
                \<in> mult ((children_edges st)\<inverse>)"
          by (rule one_step_implies_mult) (auto simp: children_edges_def)
        then have less: "(mset (rest @ children_of st top), mset stack)
                \<in> mult ((children_edges st)\<inverse>)"
          by (simp add: st)
        have "isParentOf_loop st c stack =
              isParentOf_loop st c (rest @ children_of st top)"
          using isParentOf_loop_step[of stack c st] ne by (simp add: st)
        also have "\<dots> = Some (\<exists>n \<in> set (rest @ children_of st top).
                              (n, c) \<in> (children_edges st)\<^sup>*)"
          by (rule 1[OF less])
        also have "(\<exists>n \<in> set (rest @ children_of st top). (n, c) \<in> (children_edges st)\<^sup>*)
                   \<longleftrightarrow> (\<exists>n \<in> set stack. (n, c) \<in> (children_edges st)\<^sup>*)"
          using ne reaches_unfold[of top c st] by (auto simp: st)
        finally show ?thesis .
      qed
    qed
  qed
qed

lemma isParentOf_loop_cycle_diverges:
  "isParentOf_loop store_cycle ''viewer'' [''admin''] = None"
proof -
  have "\<not> (s = store_cycle \<and> c = ''viewer'' \<and> (stack = [''admin''] \<or> stack = [''editor'']))"
    if major: "isParentOf_loop s c stack = Some y" for s c stack y
  proof (rule isParentOf_loop.raw_induct[where
          P = "\<lambda>s c stack y. \<not> (s = store_cycle \<and> c = ''viewer'' \<and>
                 (stack = [''admin''] \<or> stack = [''editor'']))", OF _ major])
    fix f :: "store \<Rightarrow> string \<Rightarrow> string list \<Rightarrow> bool option" and s c stack y
    assume IH: "\<And>s c stack y. f s c stack = Some y \<Longrightarrow>
         \<not> (s = store_cycle \<and> c = ''viewer'' \<and> (stack = [''admin''] \<or> stack = [''editor'']))"
    assume eq: "(if stack = [] then Some False
          else if last stack = c then Some True
               else case findOne (\<lambda>r. r_id r = last stack) (roles s) of
                    None \<Rightarrow> f s c (butlast stack)
                    | Some role \<Rightarrow> f s c (butlast stack @ r_children role)) = Some y"
    show "\<not> (s = store_cycle \<and> c = ''viewer'' \<and> (stack = [''admin''] \<or> stack = [''editor'']))"
    proof
      assume a: "s = store_cycle \<and> c = ''viewer'' \<and> (stack = [''admin''] \<or> stack = [''editor''])"
      then consider "stack = [''admin'']" | "stack = [''editor'']" by blast
      then show False
      proof cases
        case 1
        with a eq have "f store_cycle ''viewer'' [''editor''] = Some y"
          by (simp add: store_cycle_def findOne_def)
        from IH[OF this] show False by simp
      next
        case 2
        with a eq have "f store_cycle ''viewer'' [''admin''] = Some y"
          by (simp add: store_cycle_def findOne_def)
        from IH[OF this] show False by simp
      qed
    qed
  qed
  then show ?thesis
    by (cases "isParentOf_loop store_cycle ''viewer'' [''admin'']") auto
qed

text \<open>
  C8: \<^verbatim>\<open>isParentOf\<close> returns true on equal names before any other check; otherwise it
  searches depth first along the \<^verbatim>\<open>children\<close> edges from the first role and returns true
  if and only if it reaches the second, skipping a name without a role document, and false
  if the second is never found. As amended: the search returns, with that value, when the
  \<^verbatim>\<open>children\<close> relation is acyclic. Before the search, a \<^verbatim>\<open>null\<close> or \<^verbatim>\<open>undefined\<close> name
  gives false, and a name that is not a valid role name gives that error: the first name
  is checked first, then the second. \<open>children_edges\<close> has no edge from a name without a
  role document.
\<close>

theorem isParentOfAsync_search:
  "isParentOfAsync x x st = Some (Inr True) \<and>
   (x \<noteq> y \<longrightarrow> is_nullish x \<or> is_nullish y \<longrightarrow> isParentOfAsync x y st = Some (Inr False)) \<and>
   (p \<noteq> c \<longrightarrow> checkRoleName p = Inl e \<longrightarrow>
      isParentOfAsync (JString p) (JString c) st = Some (Inl e)) \<and>
   (p \<noteq> c \<longrightarrow> checkRoleName p = Inr () \<longrightarrow> checkRoleName c = Inl e' \<longrightarrow>
      isParentOfAsync (JString p) (JString c) st = Some (Inl e')) \<and>
   (checkRoleName p = Inr () \<longrightarrow> checkRoleName c = Inr () \<longrightarrow> acyclic (children_edges st) \<longrightarrow>
      isParentOfAsync (JString p) (JString c) st =
        Some (Inr ((p, c) \<in> (children_edges st)\<^sup>*)))"
proof (intro conjI impI)
  show "isParentOfAsync x x st = Some (Inr True)"
    by (simp add: isParentOfAsync_def)
  show "isParentOfAsync x y st = Some (Inr False)" if "x \<noteq> y" "is_nullish x \<or> is_nullish y"
    using that by (simp add: isParentOfAsync_def)
  show "isParentOfAsync (JString p) (JString c) st = Some (Inl e)"
    if "p \<noteq> c" "checkRoleName p = Inl e"
    using that by (simp add: isParentOfAsync_def)
  show "isParentOfAsync (JString p) (JString c) st = Some (Inl e')"
    if "p \<noteq> c" "checkRoleName p = Inr ()" "checkRoleName c = Inl e'"
    using that by (simp add: isParentOfAsync_def)
  show "isParentOfAsync (JString p) (JString c) st =
        Some (Inr ((p, c) \<in> (children_edges st)\<^sup>*))"
    if "checkRoleName p = Inr ()" "checkRoleName c = Inr ()" "acyclic (children_edges st)"
    using that isParentOf_loop_acyclic[OF that(3), of c "[p]"]
    by (auto simp: isParentOfAsync_def)
qed

theorem isParentOfAsync_search_witness:
  "checkRoleName ''admin'' = Inr () \<and> checkRoleName ''viewer'' = Inr () \<and>
   acyclic (children_edges store_dangling) \<and>
   isParentOfAsync (JString ''admin'') (JString ''viewer'') store_dangling = Some (Inr True) \<and>
   isParentOfAsync (JString ''editor'') (JString ''ghost'') store_dangling = Some (Inr False) \<and>
   isParentOfAsync JNull (JString ''viewer'') store_dangling = Some (Inr False) \<and>
   isParentOfAsync (JString '' x'') (JString ''admin'') store_dangling =
     Some (Inl (InvalidRoleName '' x'')) \<and>
   isParentOfAsync (JString ''admin'') (JString '' x'') store_dangling =
     Some (Inl (InvalidRoleName '' x''))"
proof -
  have e: "(a, b) \<in> children_edges store_dangling \<longleftrightarrow>
           (a = ''admin'' \<and> (b = ''editor'' \<or> b = ''ghost'')) \<or> (a = ''editor'' \<and> b = ''viewer'')"
    for a b
    by (auto simp: children_edges_def children_of_def findOne_def store_dangling_def)
  have ac: "acyclic (children_edges store_dangling)"
    by (rule acyclicI_order[where
          f = "\<lambda>n. if n = ''admin'' then 2 else if n = ''editor'' then 1 else (0::nat)"])
       (auto simp: e)
  have "(''admin'', ''editor'') \<in> children_edges store_dangling"
    and "(''editor'', ''viewer'') \<in> children_edges store_dangling"
    by (simp_all add: e)
  then have r: "(''admin'', ''viewer'') \<in> (children_edges store_dangling)\<^sup>*"
    by (meson converse_rtrancl_into_rtrancl rtrancl.rtrancl_refl)
  have "(''editor'', b) \<in> (children_edges store_dangling)\<^sup>* \<Longrightarrow> b = ''editor'' \<or> b = ''viewer''"
    for b
    by (induction rule: rtrancl_induct) (auto simp: e)
  then have n: "(''editor'', ''ghost'') \<notin> (children_edges store_dangling)\<^sup>*"
    by auto
  have g: "checkRoleName ''ghost'' = Inr ()"
    by (simp add: checkRoleName_def js_trim_def is_js_space_def)
  have x: "checkRoleName '' x'' = Inl (InvalidRoleName '' x'')"
    by (simp add: checkRoleName_def js_trim_def is_js_space_def)
  from isParentOfAsync_search[where x = JNull and y = "JString ''viewer''" and
      st = store_dangling and p = "''admin''" and c = "''viewer''"]
    checkRoleName_admin checkRoleName_viewer ac r
  have 1: "isParentOfAsync (JString ''admin'') (JString ''viewer'') store_dangling =
             Some (Inr True)"
    and 2: "isParentOfAsync JNull (JString ''viewer'') store_dangling = Some (Inr False)"
    by simp_all
  from isParentOfAsync_search[where st = store_dangling and p = "''editor''" and c = "''ghost''"]
    checkRoleName_editor g ac n
  have 3: "isParentOfAsync (JString ''editor'') (JString ''ghost'') store_dangling =
             Some (Inr False)"
    by simp
  from isParentOfAsync_search[where st = store_dangling and p = "'' x''" and c = "''admin''"
      and e = "InvalidRoleName '' x''"] x
  have 4: "isParentOfAsync (JString '' x'') (JString ''admin'') store_dangling =
     Some (Inl (InvalidRoleName '' x''))"
    by simp
  from isParentOfAsync_search[where st = store_dangling and p = "''admin''" and c = "'' x''"
      and e' = "InvalidRoleName '' x''"] x checkRoleName_admin
  have 5: "isParentOfAsync (JString ''admin'') (JString '' x'') store_dangling =
     Some (Inl (InvalidRoleName '' x''))"
    by simp
  from 1 2 3 4 5 checkRoleName_admin checkRoleName_viewer ac show ?thesis by simp
qed

text \<open>
  On \<open>store_cycle\<close>, which \<^verbatim>\<open>addRolesToParentAsync\<close> builds, the search for a role that
  is not there never returns: the stack is \<^verbatim>\<open>[admin]\<close>, then \<^verbatim>\<open>[editor]\<close>, then \<^verbatim>\<open>[admin]\<close>
  again.
\<close>

theorem isParentOfAsync_cycle_never_returns:
  "isParentOfAsync (JString ''admin'') (JString ''viewer'') store_cycle = None"
  by (simp add: isParentOfAsync_def checkRoleName_admin checkRoleName_viewer
      isParentOf_loop_cycle_diverges)

section \<open>The loops of renameScopeAsync and renameRoleAsync (C9)\<close>

lemma converge_terminates:
  assumes "\<And>s. snd (update s) > 0 \<Longrightarrow> m (fst (update s)) < (m s :: nat)"
  shows "\<exists>s0. converge update st = Some (fst (update s0)) \<and> snd (update s0) = 0"
proof (induction "m st" arbitrary: st rule: less_induct)
  case less
  show ?case
  proof (cases "snd (update st) > 0")
    case True
    from less[OF assms[OF True]] show ?thesis
      by (subst converge.simps) (simp add: True)
  next
    case False
    then show ?thesis
      by (subst converge.simps) auto
  qed
qed

lemma converge_Some_not_invariant:
  assumes "converge update st = Some y"
    and "\<And>s. I s \<Longrightarrow> snd (update s) > 0 \<and> I (fst (update s))"
  shows "\<not> I st"
proof -
  have "update = update \<longrightarrow> \<not> I st"
  proof (rule converge.raw_induct[where P = "\<lambda>u s y. u = update \<longrightarrow> \<not> I s", OF _ assms(1)])
    fix f u s z
    assume IH: "\<And>u s z. f u s = Some z \<Longrightarrow> u = update \<longrightarrow> \<not> I s"
      and eq: "(if 0 < snd (u s) then f u (fst (u s)) else Some (fst (u s))) = Some z"
    show "u = update \<longrightarrow> \<not> I s"
    proof (intro impI notI)
      assume u: "u = update" and i: "I s"
      from assms(2)[OF i] have p: "snd (update s) > 0" and i': "I (fst (update s))" by auto
      from eq p u have "f update (fst (update s)) = Some z" by simp
      from IH[OF this] i' show False by simp
    qed
  qed
  then show ?thesis by simp
qed

lemma converge_diverges:
  assumes "\<And>s. I s \<Longrightarrow> snd (update s) > 0 \<and> I (fst (update s))" and "I st"
  shows "converge update st = None"
proof (cases "converge update st")
  case (Some y)
  from converge_Some_not_invariant[OF Some, of I] assms show ?thesis by blast
qed simp

lemma update_scope_decreases:
  assumes "oldName \<noteq> newName" and "snd (update_scope oldName newName s) > 0"
  shows "length (filter (\<lambda>a. a_scope a = oldName) (roleAssignment (fst (update_scope oldName newName s))))
         < length (filter (\<lambda>a. a_scope a = oldName) (roleAssignment s))"
proof -
  have "filter (\<lambda>a. a_scope a = oldName)
          (map (\<lambda>d. if a_scope d = oldName then d\<lparr>a_scope := newName\<rparr> else d) xs) = []"
    for xs :: "assignment list"
    using assms(1) by (induction xs) auto
  from this[of "roleAssignment s"] assms(2) show ?thesis
    by (simp add: update_scope_def updateMulti_def Let_def)
qed

lemma update_role_decreases:
  assumes "oldName \<noteq> newName" and "snd (update_role oldName newName s) > 0"
  shows "length (filter (\<lambda>a. a_role a = oldName) (roleAssignment (fst (update_role oldName newName s))))
         < length (filter (\<lambda>a. a_role a = oldName) (roleAssignment s))"
proof -
  have "filter (\<lambda>a. a_role a = oldName)
          (map (\<lambda>d. if a_role d = oldName then d\<lparr>a_role := newName\<rparr> else d) xs) = []"
    for xs :: "assignment list"
    using assms(1) by (induction xs) auto
  from this[of "roleAssignment s"] assms(2) show ?thesis
    by (simp add: update_role_def updateMulti_def Let_def)
qed

lemma count_replace_first:
  "x \<noteq> y \<Longrightarrow> x \<in> set zs \<Longrightarrow> Suc (count_list (replace_first x y zs) x) = count_list zs x"
  by (induction zs) auto

lemma sum_list_decreases:
  fixes g :: "'a \<Rightarrow> nat"
  assumes "\<And>d. d \<in> set ds \<Longrightarrow> sel d \<Longrightarrow> g (f d) < g d"
    and "\<exists>d \<in> set ds. sel d"
  shows "sum_list (map g (map (\<lambda>d. if sel d then f d else d) ds)) < sum_list (map g ds)"
  using assms
proof (induction ds)
  case Nil
  then show ?case by simp
next
  case (Cons d ds)
  have le: "sum_list (map g (map (\<lambda>d. if sel d then f d else d) ds)) \<le> sum_list (map g ds)"
  proof (cases "\<exists>d \<in> set ds. sel d")
    case True
    with Cons show ?thesis by (simp add: less_imp_le)
  next
    case False
    then have "map (\<lambda>d. if sel d then f d else d) ds = ds" by (induction ds) auto
    then show ?thesis by simp
  qed
  show ?case
  proof (cases "sel d")
    case True
    with Cons.prems(1)[of d] le show ?thesis by simp
  next
    case False
    with Cons.prems(2) have "\<exists>d \<in> set ds. sel d" by auto
    with Cons False show ?thesis by simp
  qed
qed

lemma update_inherited_decreases:
  assumes "oldName \<noteq> newName" and "snd (update_inherited oldName newName s) > 0"
  shows "occurrences oldName (map a_inheritedRoles (roleAssignment (fst (update_inherited oldName newName s))))
         < occurrences oldName (map a_inheritedRoles (roleAssignment s))"
proof -
  have ex: "\<exists>d \<in> set (roleAssignment s). oldName \<in> set (a_inheritedRoles d)"
    using assms(2) by (auto simp: update_inherited_def updateMulti_def Let_def filter_empty_conv)
  have "sum_list (map (\<lambda>a. count_list (a_inheritedRoles a) oldName)
          (map (\<lambda>d. if oldName \<in> set (a_inheritedRoles d)
                     then d\<lparr>a_inheritedRoles := replace_first oldName newName (a_inheritedRoles d)\<rparr>
                     else d) (roleAssignment s)))
        < sum_list (map (\<lambda>a. count_list (a_inheritedRoles a) oldName) (roleAssignment s))"
    by (rule sum_list_decreases[OF _ ex]) (use count_replace_first[OF assms(1)] in fastforce)
  then show ?thesis
    by (simp add: occurrences_def update_inherited_def updateMulti_def Let_def comp_def)
qed

lemma update_children_decreases:
  assumes "oldName \<noteq> newName" and "snd (update_children oldName newName s) > 0"
  shows "occurrences oldName (map r_children (roles (fst (update_children oldName newName s))))
         < occurrences oldName (map r_children (roles s))"
proof -
  have ex: "\<exists>d \<in> set (roles s). oldName \<in> set (r_children d)"
    using assms(2) by (auto simp: update_children_def updateMulti_def Let_def filter_empty_conv)
  have "sum_list (map (\<lambda>a. count_list (r_children a) oldName)
          (map (\<lambda>d. if oldName \<in> set (r_children d)
                     then d\<lparr>r_children := replace_first oldName newName (r_children d)\<rparr>
                     else d) (roles s)))
        < sum_list (map (\<lambda>a. count_list (r_children a) oldName) (roles s))"
    by (rule sum_list_decreases[OF _ ex]) (use count_replace_first[OF assms(1)] in fastforce)
  then show ?thesis
    by (simp add: occurrences_def update_children_def updateMulti_def Let_def comp_def)
qed


lemma updateMulti_no_match: "snd (updateMulti sel f coll) = 0 \<Longrightarrow> fst (updateMulti sel f coll) = coll"
  by (induction coll) (auto simp: updateMulti_def split: if_splits)

lemma converge_stable:
  assumes "\<And>s. snd (update s) > 0 \<Longrightarrow> m (fst (update s)) < (m s :: nat)"
    and "\<And>s. snd (update s) = 0 \<Longrightarrow> fst (update s) = s"
  shows "\<exists>s'. converge update st = Some s' \<and> snd (update s') = 0"
proof -
  from converge_terminates[of update m st, OF assms(1)]
  obtain s0 where "converge update st = Some (fst (update s0))" "snd (update s0) = 0"
    by blast
  with assms(2)[of s0] show ?thesis by simp
qed

lemma update_scope_stable: "snd (update_scope x y s) = 0 \<Longrightarrow> fst (update_scope x y s) = s"
  using updateMulti_no_match[of "\<lambda>a. a_scope a = x" "\<lambda>a. a\<lparr>a_scope := y\<rparr>" "roleAssignment s"]
  by (simp add: update_scope_def Let_def)

lemma update_role_stable: "snd (update_role x y s) = 0 \<Longrightarrow> fst (update_role x y s) = s"
  using updateMulti_no_match[of "\<lambda>a. a_role a = x" "\<lambda>a. a\<lparr>a_role := y\<rparr>" "roleAssignment s"]
  by (simp add: update_role_def Let_def)

lemma update_inherited_stable:
  "snd (update_inherited x y s) = 0 \<Longrightarrow> fst (update_inherited x y s) = s"
  using updateMulti_no_match[of "\<lambda>a. x \<in> set (a_inheritedRoles a)"
      "\<lambda>a. a\<lparr>a_inheritedRoles := replace_first x y (a_inheritedRoles a)\<rparr>" "roleAssignment s"]
  by (simp add: update_inherited_def Let_def)

lemma update_children_stable:
  "snd (update_children x y s) = 0 \<Longrightarrow> fst (update_children x y s) = s"
  using updateMulti_no_match[of "\<lambda>r. x \<in> set (r_children r)"
      "\<lambda>r. r\<lparr>r_children := replace_first x y (r_children r)\<rparr>" "roles s"]
  by (simp add: update_children_def Let_def)

lemma scope_loop_ends:
  "x \<noteq> y \<Longrightarrow> \<exists>s'. converge (update_scope x y) st = Some s' \<and> snd (update_scope x y s') = 0"
  by (rule converge_stable[where m = "\<lambda>s. length (filter (\<lambda>a. a_scope a = x) (roleAssignment s))"])
     (auto intro: update_scope_decreases update_scope_stable)

lemma role_loop_ends:
  "x \<noteq> y \<Longrightarrow> \<exists>s'. converge (update_role x y) st = Some s' \<and> snd (update_role x y s') = 0"
  by (rule converge_stable[where m = "\<lambda>s. length (filter (\<lambda>a. a_role a = x) (roleAssignment s))"])
     (auto intro: update_role_decreases update_role_stable)

lemma inherited_loop_ends:
  "x \<noteq> y \<Longrightarrow>
   \<exists>s'. converge (update_inherited x y) st = Some s' \<and> snd (update_inherited x y s') = 0"
  by (rule converge_stable[where
        m = "\<lambda>s. occurrences x (map a_inheritedRoles (roleAssignment s))"])
     (auto intro: update_inherited_decreases update_inherited_stable)

lemma children_loop_ends:
  "x \<noteq> y \<Longrightarrow>
   \<exists>s'. converge (update_children x y) st = Some s' \<and> snd (update_children x y s') = 0"
  by (rule converge_stable[where m = "\<lambda>s. occurrences x (map r_children (roles s))"])
     (auto intro: update_children_decreases update_children_stable)

lemma update_scope_same_name: "fst (update_scope x x s) = s"
proof -
  have "map (\<lambda>d. if a_scope d = x then d\<lparr>a_scope := x\<rparr> else d) xs = xs"
    for xs :: "assignment list"
    by (induction xs) auto
  then show ?thesis by (simp add: update_scope_def updateMulti_def Let_def)
qed

lemma scope_loop_same_name_diverges:
  assumes "\<exists>a \<in> set (roleAssignment st). a_scope a = x"
  shows "converge (update_scope x x) st = None"
proof (rule converge_diverges[where I = "\<lambda>s. \<exists>a \<in> set (roleAssignment s). a_scope a = x"])
  fix s :: store assume "\<exists>a \<in> set (roleAssignment s). a_scope a = x"
  then show "0 < snd (update_scope x x s) \<and>
             (\<exists>a \<in> set (roleAssignment (fst (update_scope x x s))). a_scope a = x)"
    unfolding update_scope_same_name
    by (auto simp: update_scope_def updateMulti_def Let_def filter_empty_conv)
qed (rule assms)

lemma renameScopeAsync_returns: "\<exists>r. renameScopeAsync x y st = Some r"
  using scope_loop_ends[of x y st]
  by (cases "x = y") (auto simp: renameScopeAsync_def split: sum.splits)

lemma renameRoleAsync_returns: "\<exists>r. renameRoleAsync x y st = Some r"
proof (cases "x = y")
  case True
  then show ?thesis by (auto simp: renameRoleAsync_def split: sum.splits)
next
  case False
  have "\<exists>r. Option.bind (converge (update_role x y) s1) (\<lambda>st2.
                  Option.bind (converge (update_inherited x y) st2) (\<lambda>st3.
                  Option.bind (converge (update_children x y) st3) (\<lambda>st4.
                  Some (Inr (st4\<lparr>roles :=
                    fst (removeDocs (\<lambda>r. r_id r = x) (roles st4))\<rparr>))))) = Some r" for s1
  proof -
    from role_loop_ends[OF False, of s1] obtain s2 where
      a: "converge (update_role x y) s1 = Some s2" by blast
    from inherited_loop_ends[OF False, of s2] obtain s3 where
      b: "converge (update_inherited x y) s2 = Some s3" by blast
    from children_loop_ends[OF False, of s3] obtain s4 where
      c: "converge (update_children x y) s3 = Some s4" by blast
    show ?thesis by (simp add: a b c)
  qed
  then show ?thesis
    by (auto simp: renameRoleAsync_def split: sum.splits option.splits)
qed

text \<open>
  C9: \<^verbatim>\<open>renameScope\<close> and \<^verbatim>\<open>renameRole\<close> return at once, writing nothing, when the two
  names are equal (a name that fails its check gives that error, and nothing is written
  either); when they differ, each update loop ends, in a store on which the update matches
  no document, and both methods return. The loop of \<^verbatim>\<open>renameScope\<close> run with equal names
  on a store that has an assignment in that scope never ends.
\<close>

theorem rename_loops_terminate:
  "renameScopeAsync oldScope oldScope st =
     Some (case checkScopeName oldScope of Inl e \<Rightarrow> Inl e | Inr u \<Rightarrow> Inr st) \<and>
   renameRoleAsync oldName oldName st =
     Some (case checkRoleName oldName of Inl e \<Rightarrow> Inl e | Inr u \<Rightarrow> Inr st) \<and>
   (oldScope \<noteq> newScope \<longrightarrow>
      (\<exists>s'. converge (update_scope oldScope newScope) st = Some s' \<and>
            snd (update_scope oldScope newScope s') = 0) \<and>
      (\<exists>r. renameScopeAsync oldScope newScope st = Some r)) \<and>
   (oldName \<noteq> newName \<longrightarrow>
      (\<exists>s'. converge (update_role oldName newName) st = Some s' \<and>
            snd (update_role oldName newName s') = 0) \<and>
      (\<exists>s'. converge (update_inherited oldName newName) st = Some s' \<and>
            snd (update_inherited oldName newName s') = 0) \<and>
      (\<exists>s'. converge (update_children oldName newName) st = Some s' \<and>
            snd (update_children oldName newName s') = 0) \<and>
      (\<exists>r. renameRoleAsync oldName newName st = Some r)) \<and>
   ((\<exists>a \<in> set (roleAssignment st). a_scope a = oldScope) \<longrightarrow>
      converge (update_scope oldScope oldScope) st = None)"
proof (intro conjI impI)
  show "renameScopeAsync oldScope oldScope st =
     Some (case checkScopeName oldScope of Inl e \<Rightarrow> Inl e | Inr u \<Rightarrow> Inr st)"
    by (simp add: renameScopeAsync_def split: sum.splits)
  show "renameRoleAsync oldName oldName st =
     Some (case checkRoleName oldName of Inl e \<Rightarrow> Inl e | Inr u \<Rightarrow> Inr st)"
    by (simp add: renameRoleAsync_def split: sum.splits)
qed (simp_all add: scope_loop_ends role_loop_ends inherited_loop_ends children_loop_ends
      renameScopeAsync_returns renameRoleAsync_returns scope_loop_same_name_diverges)

theorem rename_loops_terminate_witness:
  "renameScopeAsync (Some ''g1'') (Some ''g1'') store_two_grants = Some (Inr store_two_grants) \<and>
   renameRoleAsync ''admin'' ''admin'' store_two_grants = Some (Inr store_two_grants) \<and>
   (\<exists>r. renameScopeAsync (Some ''g1'') (Some ''g2'') store_two_grants = Some r) \<and>
   (\<exists>r. renameRoleAsync ''admin'' ''root'' store_two_grants = Some r) \<and>
   converge (update_scope (Some ''g1'') (Some ''g1'')) store_two_grants = None"
proof -
  have a: "\<exists>a \<in> set (roleAssignment store_two_grants). a_scope a = Some ''g1''"
    by (simp add: store_two_grants_def)
  have b: "Some ''g1'' \<noteq> Some ''g2''" and c: "''admin'' \<noteq> ''root''" by simp_all
  from rename_loops_terminate[of "Some ''g1''" store_two_grants "''admin''" "Some ''g2''"
      "''root''"] a b c checkScopeName_g1 checkRoleName_admin
  show ?thesis by simp
qed

text \<open>What the two methods compute on \<open>store_two_grants\<close>.\<close>

lemma renameScopeAsync_example:
  "renameScopeAsync (Some ''g1'') (Some ''g2'') store_two_grants =
   Some (Inr (store_two_grants\<lparr>roleAssignment :=
     [\<lparr>a_id = 0, a_user = ''u1'', a_role = ''admin'', a_scope = None,
       a_inheritedRoles = [''admin'']\<rparr>,
      \<lparr>a_id = 1, a_user = ''u1'', a_role = ''admin'', a_scope = Some ''g2'',
       a_inheritedRoles = [''admin'']\<rparr>]\<rparr>))"
  by (simp add: renameScopeAsync_def checkScopeName_def js_trim_def is_js_space_def
      converge.simps update_scope_def updateMulti_def store_two_grants_def)

lemma renameRoleAsync_example:
  "renameRoleAsync ''admin'' ''root'' store_two_grants =
   Some (Inr \<lparr>roles = [\<lparr>r_id = ''root'', r_children = []\<rparr>],
      roleAssignment =
        [\<lparr>a_id = 0, a_user = ''u1'', a_role = ''root'', a_scope = None,
          a_inheritedRoles = [''root'']\<rparr>,
         \<lparr>a_id = 1, a_user = ''u1'', a_role = ''root'', a_scope = Some ''g1'',
          a_inheritedRoles = [''root'']\<rparr>],
      nextId = 2\<rparr>)"
  by (simp add: renameRoleAsync_def checkRoleName_def js_trim_def is_js_space_def
      converge.simps update_role_def update_inherited_def update_children_def updateMulti_def
      insertRole_def findOne_def removeDocs_def store_two_grants_def)

end
